theory Spec2Isabelle
  imports Main "HOL-Library.AList"
begin

section \<open>JavaScript values and strings\<close>

text \<open>
  JavaScript strings are modelled as \<open>string\<close>, one \<open>char\<close> per code unit: they are the
  strings whose code units are below 256. An optional field (\<open>string | undefined\<close>) is a
  \<open>string option\<close>, \<open>None\<close> being \<open>undefined\<close>. A \<open>Record<string, V>\<close> is the list of its
  own enumerable properties, with distinct keys, in the order \<open>Object.entries\<close>
  enumerates them: the array indices in ascending order, then the other keys in the
  order of their creation.
\<close>

type_synonym 'v jsobj = "(string \<times> 'v) list"

definition lower_letters :: string where
  "lower_letters = ''abcdefghijklmnopqrstuvwxyz''"

definition upper_letters :: string where
  "upper_letters = ''ABCDEFGHIJKLMNOPQRSTUVWXYZ''"

definition digits :: string where
  "digits = ''0123456789''"

text \<open>
  The letters above 127 that have both cases among the code units below 256: \<open>0xE0\<close> to
  \<open>0xFE\<close> without the division sign \<open>0xF7\<close>, and \<open>0xC0\<close> to \<open>0xDE\<close> without the
  multiplication sign \<open>0xD7\<close>.
\<close>

definition latin1_lower :: string where
  "latin1_lower =
     [CHR 0xE0, CHR 0xE1, CHR 0xE2, CHR 0xE3, CHR 0xE4, CHR 0xE5, CHR 0xE6, CHR 0xE7,
      CHR 0xE8, CHR 0xE9, CHR 0xEA, CHR 0xEB, CHR 0xEC, CHR 0xED, CHR 0xEE, CHR 0xEF,
      CHR 0xF0, CHR 0xF1, CHR 0xF2, CHR 0xF3, CHR 0xF4, CHR 0xF5, CHR 0xF6,
      CHR 0xF8, CHR 0xF9, CHR 0xFA, CHR 0xFB, CHR 0xFC, CHR 0xFD, CHR 0xFE]"

definition latin1_upper :: string where
  "latin1_upper =
     [CHR 0xC0, CHR 0xC1, CHR 0xC2, CHR 0xC3, CHR 0xC4, CHR 0xC5, CHR 0xC6, CHR 0xC7,
      CHR 0xC8, CHR 0xC9, CHR 0xCA, CHR 0xCB, CHR 0xCC, CHR 0xCD, CHR 0xCE, CHR 0xCF,
      CHR 0xD0, CHR 0xD1, CHR 0xD2, CHR 0xD3, CHR 0xD4, CHR 0xD5, CHR 0xD6,
      CHR 0xD8, CHR 0xD9, CHR 0xDA, CHR 0xDB, CHR 0xDC, CHR 0xDD, CHR 0xDE]"

definition toUpperChar :: "char \<Rightarrow> char" where
  "toUpperChar c =
     (case map_of (zip (lower_letters @ latin1_lower) (upper_letters @ latin1_upper)) c of
        None \<Rightarrow> c | Some u \<Rightarrow> u)"

definition toLowerChar :: "char \<Rightarrow> char" where
  "toLowerChar c =
     (case map_of (zip (upper_letters @ latin1_upper) (lower_letters @ latin1_lower)) c of
        None \<Rightarrow> c | Some l \<Rightarrow> l)"


definition toUpperCase :: "string \<Rightarrow> string" where
  "toUpperCase s = concat (map (\<lambda>c. if c = CHR 0xDF then ''SS'' else [toUpperChar c]) s)"

text \<open>\<open>s.toLowerCase()\<close>: every code unit below 256 has its lower-case form below 256.\<close>

definition toLowerCase :: "string \<Rightarrow> string" where
  "toLowerCase s = map toLowerChar s"

text \<open>
  The names of the members of \<open>Object.prototype\<close>, which every ordinary object inherits.
  All are functions but \<open>__proto__\<close>, an accessor whose getter gives the prototype of the
  object it is read from.
\<close>

definition object_prototype_names :: "string list" where
  "object_prototype_names =
     [''constructor'', ''__defineGetter__'', ''__defineSetter__'', ''hasOwnProperty'',
      ''__lookupGetter__'', ''__lookupSetter__'', ''isPrototypeOf'', ''propertyIsEnumerable'',
      ''toString'', ''valueOf'', ''__proto__'', ''toLocaleString'']"

text \<open>
  The values given here to an untyped (\<open>any\<close>) record entry and to a property read from
  \<open>process.env\<close>: \<open>undefined\<close>, \<open>null\<close>, a string, and the member of \<open>Object.prototype\<close> of
  a given name.
\<close>

datatype jsval = JUndefined | JNull | JStr string | JInherited string

text \<open>
  The conversion \<open>String(v)\<close>. A built-in function prints as
  \<open>function name() { [native code] }\<close> (the member \<open>constructor\<close> is the function \<open>Object\<close>),
  and \<open>Object.prototype\<close>, which reading \<open>__proto__\<close> gives, as \<open>[object Object]\<close>.
\<close>

fun js_String :: "jsval \<Rightarrow> string" where
  "js_String JUndefined = ''undefined''"
| "js_String JNull = ''null''"
| "js_String (JStr s) = s"
| "js_String (JInherited n) =
     (if n = ''__proto__'' then ''[object Object]''
      else ''function '' @ (if n = ''constructor'' then ''Object'' else n) @ ''() { [native code] }'')"

text \<open>A thrown \<open>Error\<close>, with its message.\<close>

datatype js_error = Error string

fun message :: "js_error \<Rightarrow> string" where
  "message (Error m) = m"

text \<open>
  \<open>process.env\<close>: the variables of the environment, each with its string. Its prototype
  is \<open>Object.prototype\<close>: reading a name (\<open>process.env[k]\<close>) gives the variable of that
  name, else the inherited member of that name, else \<open>undefined\<close>.
\<close>

type_synonym process_env = "string \<rightharpoonup> string"

definition env_get :: "process_env \<Rightarrow> string \<Rightarrow> jsval" where
  "env_get e k =
     (case e k of
        Some v \<Rightarrow> JStr v
      | None \<Rightarrow> if k \<in> set object_prototype_names then JInherited k else JUndefined)"

text \<open>\<open>x || ''\<close> on an optional string: \<open>undefined\<close> and the empty string both give \<open>''\<close>.\<close>

definition or_empty :: "string option \<Rightarrow> string" where
  "or_empty x = (case x of None \<Rightarrow> [] | Some s \<Rightarrow> s)"

section \<open>Properties of an ordinary object\<close>

text \<open>
  An array index is a canonical numeric string below \<open>2^32 - 1\<close>: \<open>0\<close>, or digits that
  do not start with \<open>0\<close>, at most \<open>4294967294\<close>. Two array indices compare as numbers: by
  length, and digit by digit at equal length.
\<close>

definition digit_val :: "char \<Rightarrow> nat" where
  "digit_val c = (case map_of (zip digits [0, 1, 2, 3, 4, 5, 6, 7, 8, 9]) c of None \<Rightarrow> 0 | Some d \<Rightarrow> d)"

fun digits_less :: "string \<Rightarrow> string \<Rightarrow> bool" where
  "digits_less (a # as) (b # bs) = (digit_val a < digit_val b \<or> (a = b \<and> digits_less as bs))"
| "digits_less _ _ = False"

definition index_less :: "string \<Rightarrow> string \<Rightarrow> bool" where
  "index_less a b = (length a < length b \<or> (length a = length b \<and> digits_less a b))"

definition is_array_index :: "string \<Rightarrow> bool" where
  "is_array_index k =
     (if k = [] then False
      else if list_ex (\<lambda>c. c \<notin> set digits) k then False
      else if hd k = CHR ''0'' then k = ''0''
      else index_less k ''4294967295'')"

text \<open>
  Creating the own property \<open>k\<close> of an object that has none of that name: an array index
  goes to its place among the array indices, another key to the end.
\<close>

fun insert_index :: "string \<Rightarrow> 'v \<Rightarrow> 'v jsobj \<Rightarrow> 'v jsobj" where
  "insert_index k v [] = [(k, v)]"
| "insert_index k v ((k', v') # rest) =
     (if is_array_index k' \<and> index_less k' k then (k', v') # insert_index k v rest
      else (k, v) # (k', v') # rest)"

text \<open>
  Defining the own property \<open>k\<close> with the value \<open>v\<close>, as an object literal and a spread
  do: an existing property keeps its place.
\<close>

definition define_property :: "string \<Rightarrow> 'v \<Rightarrow> 'v jsobj \<Rightarrow> 'v jsobj" where
  "define_property k v obj =
     (if is_array_index k \<and> map_of obj k = None then insert_index k v obj else AList.update k v obj)"

text \<open>
  The assignment \<open>obj[k] = v\<close> of a string to a property of an object whose prototype is
  \<open>Object.prototype\<close>. Assigning to \<open>__proto__\<close> calls the inherited setter, which ignores
  a value that is neither an object nor \<open>null\<close>: the object stays as it is (unless it has
  an own property of that name). Every other inherited member is a writable data
  property, so that the assignment creates an own property.
\<close>

definition js_assign :: "string \<Rightarrow> string \<Rightarrow> string jsobj \<Rightarrow> string jsobj" where
  "js_assign k v obj =
     (if k = ''__proto__'' \<and> map_of obj k = None then obj else define_property k v obj)"

section \<open>String operations of the JavaScript library\<close>

text \<open>\<open>s.startsWith(p)\<close>, \<open>s.endsWith(p)\<close>, \<open>s.includes(p)\<close>.\<close>

definition startsWith :: "string \<Rightarrow> string \<Rightarrow> bool" where
  "startsWith s p = (take (length p) s = p)"

definition endsWith :: "string \<Rightarrow> string \<Rightarrow> bool" where
  "endsWith s p = (length p \<le> length s \<and> drop (length s - length p) s = p)"

fun str_includes :: "string \<Rightarrow> string \<Rightarrow> bool" where
  "str_includes [] p = (p = [])"
| "str_includes (c # cs) p = (startsWith (c # cs) p \<or> str_includes cs p)"

text \<open>\<open>s.split(c)\<close> for a one-character separator: never empty, \<open>''.split(c) = ['']\<close>.\<close>

fun split_on :: "char \<Rightarrow> string \<Rightarrow> string list" where
  "split_on c [] = [[]]"
| "split_on c (x # xs) =
     (if x = c then [] # split_on c xs
      else (case split_on c xs of [] \<Rightarrow> [[x]] | w # ws \<Rightarrow> (x # w) # ws))"

text \<open>\<open>parts.join(sep)\<close>.\<close>

fun join :: "string \<Rightarrow> string list \<Rightarrow> string" where
  "join sep [] = []"
| "join sep [w] = w"
| "join sep (w # v # ws) = w @ sep @ join sep (v # ws)"

text \<open>\<open>parts.indexOf(x)\<close>; \<open>None\<close> stands for \<open>-1\<close>.\<close>

fun indexOf :: "string list \<Rightarrow> string \<Rightarrow> nat option" where
  "indexOf [] x = None"
| "indexOf (w # ws) x = (if w = x then Some 0 else map_option Suc (indexOf ws x))"

text \<open>\<open>s.lastIndexOf(c)\<close> for a character; \<open>None\<close> stands for \<open>-1\<close>.\<close>

fun lastIndexOf :: "string \<Rightarrow> char \<Rightarrow> nat option" where
  "lastIndexOf [] c = None"
| "lastIndexOf (x # xs) c =
     (case lastIndexOf xs c of Some i \<Rightarrow> Some (Suc i) | None \<Rightarrow> (if x = c then Some 0 else None))"

text \<open>\<open>s.replace(p, r)\<close> with a string pattern: only the first occurrence is replaced.\<close>

fun replace_first :: "string \<Rightarrow> string \<Rightarrow> string \<Rightarrow> string" where
  "replace_first p r [] = (if p = [] then r else [])"
| "replace_first p r (c # cs) =
     (if startsWith (c # cs) p then r @ drop (length p) (c # cs) else c # replace_first p r cs)"

text \<open>A value used as a condition: \<open>undefined\<close>, \<open>null\<close> and the empty string are falsy.\<close>

fun truthy :: "string option \<Rightarrow> bool" where
  "truthy None = False"
| "truthy (Some s) = (s \<noteq> [])"

text \<open>A \<open>Set<string>\<close> in insertion order: \<open>add\<close> appends an element that is not yet there.\<close>

definition set_add :: "string list \<Rightarrow> string \<Rightarrow> string list" where
  "set_add xs x = (if x \<in> set xs then xs else xs @ [x])"

section \<open>Regular expressions\<close>

text \<open>
  The part of ECMAScript regular expressions the sources use: character classes,
  concatenation, alternation, the greedy star, capture groups and the two anchors (no
  flag other than \<open>g\<close>). A match state is the index reached in the subject, the rest of
  the subject from there, and the captures made so far (the latest first).
  \<open>ms r x\<close> lists every way \<open>r\<close> can match from the state \<open>x\<close>, in the order a
  backtracking matcher tries them, so that the head is the match JavaScript reports.
\<close>

type_synonym caps = "(nat \<times> string) list"
type_synonym mstate = "nat \<times> string \<times> caps"

datatype re =
    Eps
  | Sym "char \<Rightarrow> bool"
  | Seq re re
  | Alt re re
  | Star re
  | Group nat re
  | Bol
  | Eol

text \<open>
  The greedy star: one more iteration first, then stopping here. An iteration that
  consumes nothing is rejected, so the length of the rest bounds the iterations.
\<close>

fun star_iter :: "(mstate \<Rightarrow> mstate list) \<Rightarrow> nat \<Rightarrow> mstate \<Rightarrow> mstate list" where
  "star_iter f 0 x = [x]"
| "star_iter f (Suc n) x =
     concat (map (star_iter f n) (filter (\<lambda>y. length (fst (snd y)) < length (fst (snd x))) (f x))) @ [x]"

primrec ms :: "re \<Rightarrow> mstate \<Rightarrow> mstate list" where
  "ms Eps x = [x]"
| "ms (Sym p) x =
     (case fst (snd x) of
        [] \<Rightarrow> []
      | a # t \<Rightarrow> if p a then [(Suc (fst x), t, snd (snd x))] else [])"
| "ms (Seq r1 r2) x = concat (map (ms r2) (ms r1 x))"
| "ms (Alt r1 r2) x = ms r1 x @ ms r2 x"
| "ms (Star r) x = star_iter (ms r) (length (fst (snd x))) x"
| "ms (Group n r) x =
     map (\<lambda>y. (fst y, fst (snd y), (n, take (fst y - fst x) (fst (snd x))) # snd (snd y))) (ms r x)"
| "ms Bol x = (if fst x = 0 then [x] else [])"
| "ms Eol x = (if fst (snd x) = [] then [x] else [])"

text \<open>Regular-expression syntax: \<open>c\<close>, \<open>[abc]\<close>, \<open>[^abc]\<close>, \<open>.\<close>, a literal string, \<open>r+\<close>.\<close>

definition chr :: "char \<Rightarrow> re" where
  "chr c = Sym (\<lambda>x. x = c)"

definition one_of :: "string \<Rightarrow> re" where
  "one_of cs = Sym (\<lambda>x. x \<in> set cs)"

definition none_of :: "string \<Rightarrow> re" where
  "none_of cs = Sym (\<lambda>x. x \<notin> set cs)"

text \<open>The dot matches any character but a line terminator (line feed, carriage return).\<close>

definition dot :: re where
  "dot = Sym (\<lambda>x. x \<noteq> CHR 0x0A \<and> x \<noteq> CHR 0x0D)"

fun lit :: "string \<Rightarrow> re" where
  "lit [] = Eps"
| "lit (c # cs) = Seq (chr c) (lit cs)"

definition Plus :: "re \<Rightarrow> re" where
  "Plus r = Seq r (Star r)"

text \<open>A match: where it starts, the text matched, the captures.\<close>

record rematch =
  index :: nat
  matched :: string
  captures :: caps

text \<open>\<open>match[n]\<close>: the text of group \<open>n\<close>, \<open>undefined\<close> when the group took no part.\<close>

definition group :: "rematch \<Rightarrow> nat \<Rightarrow> string option" where
  "group m n = map_of (captures m) n"

text \<open>The match of \<open>r\<close> that starts at index \<open>i\<close>, where the rest of the subject is \<open>s\<close>.\<close>

definition match_at :: "re \<Rightarrow> nat \<Rightarrow> string \<Rightarrow> rematch option" where
  "match_at r i s =
     (case ms r (i, s, []) of
        [] \<Rightarrow> None
      | y # _ \<Rightarrow> Some \<lparr>index = i, matched = take (fst y - i) s, captures = snd (snd y)\<rparr>)"

text \<open>The leftmost match at or after index \<open>i\<close>: \<open>s.match(r)\<close> and \<open>r.exec(s)\<close> without \<open>g\<close>.\<close>

fun search_from :: "re \<Rightarrow> nat \<Rightarrow> string \<Rightarrow> rematch option" where
  "search_from r i [] = match_at r i []"
| "search_from r i (c # cs) =
     (case match_at r i (c # cs) of Some m \<Rightarrow> Some m | None \<Rightarrow> search_from r (Suc i) cs)"

definition re_match :: "re \<Rightarrow> string \<Rightarrow> rematch option" where
  "re_match r s = search_from r 0 s"

definition re_test :: "re \<Rightarrow> string \<Rightarrow> bool" where
  "re_test r s = (re_match r s \<noteq> None)"

text \<open>
  The scan of a \<open>g\<close> regular expression over the whole subject, as \<open>replace\<close> and the
  \<open>exec\<close> loop do it: the subject is cut into the characters no match covers and the
  successive leftmost matches. \<open>k\<close> counts the characters of the current match still to be
  skipped. (After an empty match the scan moves on by one character; no regular
  expression of the sources matches the empty string.)
\<close>

datatype seg = Lit char | Hit rematch

fun gscan :: "re \<Rightarrow> nat \<Rightarrow> nat \<Rightarrow> string \<Rightarrow> seg list" where
  "gscan r k i [] =
     (if k = 0 then (case match_at r i [] of None \<Rightarrow> [] | Some m \<Rightarrow> [Hit m]) else [])"
| "gscan r k i (c # cs) =
     (if 0 < k then gscan r (k - 1) (Suc i) cs
      else case match_at r i (c # cs) of
             None \<Rightarrow> Lit c # gscan r 0 (Suc i) cs
           | Some m \<Rightarrow>
               Hit m # (if matched m = [] then Lit c # gscan r 0 (Suc i) cs
                        else gscan r (length (matched m) - 1) (Suc i) cs))"

text \<open>\<open>s.replace(r, f)\<close> for a \<open>g\<close> regular expression; \<open>f\<close> gives the replacement of a match.\<close>

definition replace_g :: "re \<Rightarrow> (rematch \<Rightarrow> string) \<Rightarrow> string \<Rightarrow> string" where
  "replace_g r f s = concat (map (\<lambda>x. case x of Lit c \<Rightarrow> [c] | Hit m \<Rightarrow> f m) (gscan r 0 0 s))"

text \<open>The matches the loop \<open>while ((match = r.exec(s)) !== null)\<close> visits.\<close>

definition exec_all :: "re \<Rightarrow> string \<Rightarrow> rematch list" where
  "exec_all r s = concat (map (\<lambda>x. case x of Lit c \<Rightarrow> [] | Hit m \<Rightarrow> [m]) (gscan r 0 0 s))"

section \<open>Dependency scanner (dependency-scanner.ts)\<close>

text \<open>A nested interpolation, \<open>\$\{[^}]+\}\<close>.\<close>

definition placeholder :: re where
  "placeholder = Seq (lit ''${'') (Seq (Plus (none_of ''}'')) (chr CHR ''}''))"

text \<open>\<open>/^-+|-+$/g\<close>.\<close>

definition boundary_dashes :: re where
  "boundary_dashes = Alt (Seq Bol (Plus (chr CHR ''-''))) (Seq (Plus (chr CHR ''-'')) Eol)"

text \<open>
  The three patterns of \<open>extractBaseStackName\<close>:
  \<open>\$\{[^}]+\}-(.+-stack)\<close>, \<open>(.+)-\$\{[^}]+\}-(stack)\<close>, \<open>(.+-stack)-\$\{[^}]+\}\<close>.
\<close>

definition base_patterns :: "re list" where
  "base_patterns =
     [Seq placeholder (Seq (chr CHR ''-'') (Group 1 (Seq (Plus dot) (lit ''-stack'')))),
      Seq (Group 1 (Plus dot)) (Seq (chr CHR ''-'') (Seq placeholder (Seq (chr CHR ''-'') (Group 2 (lit ''stack''))))),
      Seq (Group 1 (Seq (Plus dot) (lit ''-stack''))) (Seq (chr CHR ''-'') placeholder)]"

text \<open>
  The loop over the patterns: \<open>None\<close> when no pattern matches, else the value returned at
  the first pattern that does. In the template \<open>`${match[1]}-stack`\<close> an undefined group
  prints as \<open>undefined\<close>.
\<close>

fun try_patterns :: "re list \<Rightarrow> string \<Rightarrow> string option option" where
  "try_patterns [] stackName = None"
| "try_patterns (pattern # rest) stackName =
     (case re_match pattern stackName of
        None \<Rightarrow> try_patterns rest stackName
      | Some m \<Rightarrow>
          if group m 2 = Some ''stack''
          then Some (Some ((case group m 1 of None \<Rightarrow> ''undefined'' | Some g \<Rightarrow> g) @ ''-stack''))
          else Some (if truthy (group m 1) then group m 1 else None))"

definition cleanName_of :: "string \<Rightarrow> string" where
  "cleanName_of stackName =
     replace_g (Plus (chr CHR ''-'')) (\<lambda>_. ''-'')
       (replace_g boundary_dashes (\<lambda>_. [])
          (replace_g placeholder (\<lambda>_. ''-'') stackName))"

definition extractBaseStackName :: "string \<Rightarrow> string option" where
  "extractBaseStackName stackName =
     (case try_patterns base_patterns stackName of
        Some r \<Rightarrow> r
      | None \<Rightarrow>
          (let cleanName = cleanName_of stackName;
               appended = (if cleanName \<noteq> [] then Some (cleanName @ ''-stack'') else None)
           in if endsWith cleanName ''-stack'' then Some cleanName
              else if str_includes cleanName ''stack'' \<and> \<not> endsWith cleanName ''stack''
              then (let parts = split_on CHR ''-'' cleanName
                    in case indexOf parts ''stack'' of
                         Some stackIndex \<Rightarrow> Some (join ''-'' (take (stackIndex + 1) parts))
                       | None \<Rightarrow> appended)
              else appended))"

definition known_patterns :: "string list" where
  "known_patterns = [''vpc'', ''rds'', ''cognito'', ''api-gateway'', ''dynamodb'', ''s3'', ''lambda'', ''ecs'', ''eks'']"

definition isKnownStackName :: "string \<Rightarrow> bool" where
  "isKnownStackName name = list_ex (\<lambda>p. str_includes (toLowerCase name) p) known_patterns"

text \<open>\<open>/\/[^/]*\$\{[^}]+\}[^/]*-stack/\<close>, and the same with the capture group of the \<open>match\<close> call.\<close>

definition interpolated_body :: re where
  "interpolated_body =
     Seq (Star (none_of ''/'')) (Seq placeholder (Seq (Star (none_of ''/'')) (lit ''-stack'')))"

definition interpolatedStackPattern :: re where
  "interpolatedStackPattern = Seq (chr CHR ''/'') interpolated_body"

definition interpolatedStackCapture :: re where
  "interpolatedStackCapture = Seq (chr CHR ''/'') (Group 1 interpolated_body)"

text \<open>The loop over \<open>pathParts\<close>; \<open>None\<close> when it ends without returning.\<close>

fun stack_like_part :: "string list \<Rightarrow> string option" where
  "stack_like_part [] = None"
| "stack_like_part (part # rest) =
     (let cleanPart = replace_g boundary_dashes (\<lambda>_. []) (replace_g (chr CHR ''*'') (\<lambda>_. []) part)
      in if str_includes part ''*'' \<and> str_includes part ''stack'' \<and> cleanPart \<noteq> [] then Some cleanPart
         else if str_includes part ''stack'' \<or> isKnownStackName part then Some part
         else stack_like_part rest)"

definition pathParts_of :: "string \<Rightarrow> string list" where
  "pathParts_of ssmPath =
     filter (\<lambda>p. p \<noteq> [] \<and> p \<noteq> ''*'') (split_on CHR ''/'' (replace_g placeholder (\<lambda>_. ''*'') ssmPath))"

definition standard_path :: "string \<Rightarrow> string option" where
  "standard_path ssmPath =
     (let pathParts = pathParts_of ssmPath
      in case stack_like_part pathParts of
           Some r \<Rightarrow> Some r
         | None \<Rightarrow> (case pathParts of [] \<Rightarrow> None | p # _ \<Rightarrow> if p \<noteq> [] then Some p else None))"

definition extractStackFromSSMPath :: "string \<Rightarrow> string option" where
  "extractStackFromSSMPath ssmPath =
     (if re_test interpolatedStackPattern ssmPath
      then (case re_match interpolatedStackCapture ssmPath of
              None \<Rightarrow> standard_path ssmPath
            | Some m \<Rightarrow>
                (case group m 1 of
                   None \<Rightarrow> standard_path ssmPath
                 | Some g \<Rightarrow> if g \<noteq> [] then extractBaseStackName g else standard_path ssmPath))
      else standard_path ssmPath)"

section \<open>Data model and events\<close>

text \<open>Objects of the AWS SDK; every field of theirs is optional.\<close>

record cf_output =
  OutputKey :: "string option"
  OutputValue :: "string option"

record cf_parameter =
  ParameterKey :: "string option"
  ParameterValue :: "string option"

record cf_tag =
  Key :: "string option"
  Value :: "string option"

record cf_stack =
  StackName :: "string option"
  StackStatus :: "string option"
  Outputs :: "cf_output list option"
  Parameters :: "cf_parameter list option"
  Tags :: "cf_tag list option"

record ssm_parameter =
  ssm_Name :: "string option"
  ssm_Value :: "string option"

text \<open>An exception of the SDK: \<open>error.name\<close> and \<open>error.message\<close>.\<close>

record aws_error =
  err_name :: string
  err_message :: string

text \<open>
  \<open>StackRequirements\<close> (the fields \<open>region\<close>, \<open>environmentVariables\<close> and \<open>dependencies\<close>
  carry the prefix \<open>req_\<close> here). \<open>stackName\<close> and \<open>status\<close> are copied from optional fields of
  the SDK's stack.
\<close>

record StackRequirements =
  stackName :: "string option"
  req_region :: string
  outputs :: "string jsobj"
  parameters :: "string jsobj"
  req_environmentVariables :: "string jsobj"
  req_dependencies :: "string list"
  status :: "string option"
  readyForDeployment :: bool
  ssmParameters :: "string jsobj"

record StackInspectionResult =
  success :: bool
  requirements :: "StackRequirements option"
  error :: "string option"
  recommendations :: "string list option"

record AWSProfileConfig =
  profile :: "string option"
  region :: "string option"
  accessKeyId :: "string option"
  secretAccessKey :: "string option"
  sessionToken :: "string option"

text \<open>
  The event bus is a publish-only sink: an emitted event is appended to a log, and
  emitting does not fail. One constructor per event type, with the payload's fields in
  the order the source writes them.
\<close>

datatype event =
    DependencyDetected string string string "string option"
  | BeforeStackInspection string "string option" "string option"
  | AfterStackInspection string StackRequirements nat nat nat bool
  | StackInspectionFailed string string
  | BeforeEnvironmentValidation string string
  | EnvironmentValidated string string "string jsobj" "string list"
  | EnvironmentValidationFailed string string "string list" "string list"
  | RemoteDeployStarted string string "string option" "string option"
  | RemoteDeployCompleted string "string option" bool int "string option"
  | BeforeServiceDeploy string string string
  | BeforeServicePackage string
  | AfterServicePackage string string
  | AfterServiceDeploy string string bool "(string jsobj) option" "string option"

section \<open>Dependency scanner: scanning a file (dependency-scanner.ts)\<close>

text \<open>
  What the scanner reads from outside: the working directory, \<open>path.resolve\<close>,
  \<open>fs.promises.stat\<close> (the size), \<open>fs.promises.readFile\<close>, \<open>yaml.load\<close> and
  \<open>yaml.dump\<close>. Each call that can fail returns the error it throws on the left.
  \<open>'d\<close> is the type of a loaded document.
\<close>

record 'd scan_world =
  cwd :: string
  path_resolve :: "string \<Rightarrow> string"
  fs_stat :: "string \<Rightarrow> js_error + nat"
  fs_readFile :: "string \<Rightarrow> js_error + string"
  yaml_load :: "string \<Rightarrow> js_error + 'd"
  yaml_dump :: "'d \<Rightarrow> js_error + string"

text \<open>\<open>/\$\{ssm:((?:[^$}]|\$\{[^}]+\})+)\}/g\<close> and \<open>/\$\{cf:((?:[^$}]|\$\{[^}]+\})+)\}/g\<close>.\<close>

definition reference_payload :: re where
  "reference_payload = Group 1 (Plus (Alt (none_of ''$}'') placeholder))"

definition ssmPattern :: re where
  "ssmPattern = Seq (lit ''${ssm:'') (Seq reference_payload (chr CHR ''}''))"

definition cfPattern :: re where
  "cfPattern = Seq (lit ''${cf:'') (Seq reference_payload (chr CHR ''}''))"

text \<open>The body of the \<open>while\<close> loop of \<open>scanSSMReferences\<close>, over the matches in order.\<close>

fun ssm_loop :: "string \<Rightarrow> rematch list \<Rightarrow> string list \<times> event list \<Rightarrow> string list \<times> event list" where
  "ssm_loop filePath [] acc = acc"
| "ssm_loop filePath (m # rest) (deps, evs) =
     (if truthy (group m 1)
      then (let stackName = extractStackFromSSMPath (or_empty (group m 1))
            in if truthy stackName
               then ssm_loop filePath rest
                      (set_add deps (or_empty stackName),
                       evs @ [DependencyDetected ''ssm'' filePath (or_empty stackName) None])
               else ssm_loop filePath rest (deps, evs))
      else ssm_loop filePath rest (deps, evs))"

definition scanSSMReferences :: "'d scan_world \<Rightarrow> 'd \<Rightarrow> string \<Rightarrow> event list \<times> (js_error + string list)" where
  "scanSSMReferences w content filePath =
     (case yaml_dump w content of
        Inl e \<Rightarrow> ([], Inl e)
      | Inr yamlString \<Rightarrow>
          (let (deps, evs) = ssm_loop filePath (exec_all ssmPattern yamlString) ([], [])
           in (evs, Inr deps)))"

text \<open>The body of the \<open>while\<close> loop of \<open>scanCFImports\<close>.\<close>

fun cf_loop :: "string \<Rightarrow> rematch list \<Rightarrow> string list \<times> event list \<Rightarrow> string list \<times> event list" where
  "cf_loop filePath [] acc = acc"
| "cf_loop filePath (m # rest) (deps, evs) =
     (if \<not> truthy (group m 1) then cf_loop filePath rest (deps, evs)
      else
        (let cfRef = or_empty (group m 1) in
         case lastIndexOf cfRef CHR ''.'' of
           None \<Rightarrow> cf_loop filePath rest (deps, evs)
         | Some lastDotIndex \<Rightarrow>
             (let stackName = take lastDotIndex cfRef;
                  outputName = drop (lastDotIndex + 1) cfRef
              in if 0 < lastDotIndex \<and> stackName \<noteq> [] \<and> outputName \<noteq> []
                 then (if \<not> str_includes stackName ''${''
                       then cf_loop filePath rest
                              (set_add deps stackName,
                               evs @ [DependencyDetected ''cloudformation'' filePath stackName (Some outputName)])
                       else (let baseName = extractBaseStackName stackName
                             in if truthy baseName
                                then cf_loop filePath rest
                                       (set_add deps (or_empty baseName),
                                        evs @ [DependencyDetected ''cloudformation'' filePath (or_empty baseName)
                                                 (Some outputName)])
                                else cf_loop filePath rest (deps, evs)))
                 else cf_loop filePath rest (deps, evs))))"

definition scanCFImports :: "'d scan_world \<Rightarrow> 'd \<Rightarrow> string \<Rightarrow> event list \<times> (js_error + string list)" where
  "scanCFImports w content filePath =
     (case yaml_dump w content of
        Inl e \<Rightarrow> ([], Inl e)
      | Inr yamlString \<Rightarrow>
          (let (deps, evs) = cf_loop filePath (exec_all cfPattern yamlString) ([], [])
           in (evs, Inr deps)))"

text \<open>
  \<open>isPathSafe\<close>: an omitted or empty \<open>projectRoot\<close> stands for the working directory.
  \<open>path.resolve\<close> of a string and \<open>process.cwd()\<close> return, so the \<open>catch\<close> of the function
  (which answers \<open>false\<close>) has no branch here.
\<close>

definition isPathSafe :: "'d scan_world \<Rightarrow> string \<Rightarrow> string option \<Rightarrow> bool" where
  "isPathSafe w filePath projectRoot =
     (let resolvedPath = path_resolve w filePath;
          baseDir = (if truthy projectRoot then path_resolve w (or_empty projectRoot) else cwd w)
      in startsWith resolvedPath baseDir)"

definition maxFileSize :: nat where
  "maxFileSize = 10 * 1024 * 1024"

definition loadConfig :: "'d scan_world \<Rightarrow> string \<Rightarrow> js_error + 'd" where
  "loadConfig w configPath =
     (case fs_stat w configPath of
        Inl e \<Rightarrow> Inl e
      | Inr fileSize \<Rightarrow>
          if maxFileSize < fileSize
          then Inl (Error (''File '' @ configPath @ '' exceeds maximum size limit of 10MB''))
          else (case fs_readFile w configPath of
                  Inl e \<Rightarrow> Inl e
                | Inr content \<Rightarrow> yaml_load w content))"

text \<open>The body of the \<open>try\<close> block of \<open>scanDependencies\<close>: the events emitted, and the error thrown or the array returned.\<close>

definition scan_try :: "'d scan_world \<Rightarrow> string \<Rightarrow> string option \<Rightarrow> event list \<times> (js_error + string list)" where
  "scan_try w configPath projectRoot =
     (if \<not> isPathSafe w configPath projectRoot
      then ([], Inl (Error (''Invalid path: '' @ configPath @ '' is outside project boundaries'')))
      else case loadConfig w configPath of
             Inl e \<Rightarrow> ([], Inl e)
           | Inr content \<Rightarrow>
               (case scanSSMReferences w content configPath of
                  (evs1, Inl e) \<Rightarrow> (evs1, Inl e)
                | (evs1, Inr ssmDeps) \<Rightarrow>
                    (case scanCFImports w content configPath of
                       (evs2, Inl e) \<Rightarrow> (evs1 @ evs2, Inl e)
                     | (evs2, Inr cfDeps) \<Rightarrow>
                         (evs1 @ evs2, Inr (foldl set_add (foldl set_add [] ssmDeps) cfDeps)))))"

text \<open>\<open>scanDependencies\<close>: the \<open>catch\<close> turns every error of the body into the empty array.\<close>

definition scanDependencies :: "'d scan_world \<Rightarrow> string \<Rightarrow> string option \<Rightarrow> event list \<times> (js_error + string list)" where
  "scanDependencies w configPath projectRoot =
     (case scan_try w configPath projectRoot of
        (evs, Inl e) \<Rightarrow> (evs, Inr [])
      | (evs, Inr deps) \<Rightarrow> (evs, Inr deps))"

section \<open>Stack inspector (stack-inspector.ts)\<close>

text \<open>
  What the inspector reads from outside: the answer of CloudFormation's \<open>DescribeStacks\<close>
  (\<open>response.Stacks\<close>) and of the parameter store's \<open>GetParametersByPath\<close>
  (\<open>response.Parameters\<close>), or the exception thrown. Both may depend on the
  configuration the clients were built with and on the process environment (where the
  SDK finds the profile).
\<close>

record client_config =
  client_region :: string
  client_credentials :: "(string \<times> string \<times> string option) option"

record aws_world =
  cf_describeStacks :: "client_config \<Rightarrow> process_env \<Rightarrow> string \<Rightarrow> aws_error + cf_stack list option"
  ssm_getParametersByPath :: "client_config \<Rightarrow> process_env \<Rightarrow> string \<Rightarrow> aws_error + ssm_parameter list option"

text \<open>\<open>a || b || c\<close> on optional strings, the last one a string.\<close>

definition or3 :: "string option \<Rightarrow> string option \<Rightarrow> string \<Rightarrow> string" where
  "or3 a b c = (if truthy a then or_empty a else if truthy b then or_empty b else c)"

text \<open>
  \<open>config.region || process.env.AWS_REGION || 'us-east-1'\<close>. \<open>AWS_REGION\<close> is not the name
  of an inherited member, so reading it gives the variable or \<open>undefined\<close>.
\<close>

definition region_of :: "AWSProfileConfig \<Rightarrow> process_env \<Rightarrow> string" where
  "region_of config e = or3 (region config) (e ''AWS_REGION'') ''us-east-1''"

text \<open>\<open>initializeClients\<close>: the configuration of both clients, and the process environment after it.\<close>

definition initializeClients :: "AWSProfileConfig \<Rightarrow> process_env \<Rightarrow> client_config \<times> process_env" where
  "initializeClients config e =
     (if truthy (accessKeyId config) \<and> truthy (secretAccessKey config)
      then (\<lparr>client_region = region_of config e,
             client_credentials =
               Some (or_empty (accessKeyId config), or_empty (secretAccessKey config), sessionToken config)\<rparr>,
            e)
      else (\<lparr>client_region = region_of config e, client_credentials = None\<rparr>,
            if truthy (profile config) then e(''AWS_PROFILE'' \<mapsto> or_empty (profile config)) else e))"

text \<open>\<open>getStackDetails\<close>: \<open>Inr None\<close> is the \<open>null\<close> of a stack that does not exist.\<close>

definition getStackDetails ::
  "aws_world \<Rightarrow> client_config \<Rightarrow> process_env \<Rightarrow> string \<Rightarrow> aws_error + cf_stack option" where
  "getStackDetails w cc e stackName' =
     (case cf_describeStacks w cc e stackName' of
        Inl err \<Rightarrow>
          if err_name err = ''ValidationError'' \<and> str_includes (err_message err) ''does not exist''
          then Inr None else Inl err
      | Inr stacks \<Rightarrow> Inr (case stacks of None \<Rightarrow> None | Some [] \<Rightarrow> None | Some (s # _) \<Rightarrow> Some s))"

text \<open>\<open>extractOutputs\<close> and \<open>extractParameters\<close>: the pairs whose key and value are both truthy.\<close>

fun collect_pairs :: "(string option \<times> string option) list \<Rightarrow> string jsobj \<Rightarrow> string jsobj" where
  "collect_pairs [] acc = acc"
| "collect_pairs ((k, v) # rest) acc =
     (if truthy k \<and> truthy v then collect_pairs rest (js_assign (or_empty k) (or_empty v) acc)
      else collect_pairs rest acc)"

definition extractOutputs :: "cf_stack \<Rightarrow> string jsobj" where
  "extractOutputs stack =
     (case Outputs stack of
        None \<Rightarrow> []
      | Some os \<Rightarrow> collect_pairs (map (\<lambda>output. (OutputKey output, OutputValue output)) os) [])"

definition extractParameters :: "cf_stack \<Rightarrow> string jsobj" where
  "extractParameters stack =
     (case Parameters stack of
        None \<Rightarrow> []
      | Some ps \<Rightarrow> collect_pairs (map (\<lambda>param. (ParameterKey param, ParameterValue param)) ps) [])"

text \<open>\<open>s.replace(r, x)\<close> for a regular expression without \<open>g\<close>: the leftmost match only.\<close>

definition replace_re_first :: "re \<Rightarrow> string \<Rightarrow> string \<Rightarrow> string" where
  "replace_re_first r x s =
     (case re_match r s of
        None \<Rightarrow> s
      | Some m \<Rightarrow> take (index m) s @ x @ drop (index m + length (matched m)) s)"

text \<open>\<open>/^\/+/\<close>.\<close>

definition leading_slashes :: re where
  "leading_slashes = Seq Bol (Plus (chr CHR ''/''))"

text \<open>The loop over the parameters one path pattern returns.\<close>

fun ssm_params_loop :: "string \<Rightarrow> ssm_parameter list \<Rightarrow> string jsobj \<Rightarrow> string jsobj" where
  "ssm_params_loop pathPattern [] acc = acc"
| "ssm_params_loop pathPattern (param # rest) acc =
     (if truthy (ssm_Name param) \<and> truthy (ssm_Value param)
      then (let cleanName = replace_re_first leading_slashes []
                              (replace_first pathPattern [] (or_empty (ssm_Name param)))
            in if cleanName \<noteq> []
               then ssm_params_loop pathPattern rest (js_assign cleanName (or_empty (ssm_Value param)) acc)
               else ssm_params_loop pathPattern rest acc)
      else ssm_params_loop pathPattern rest acc)"

text \<open>The loop over the path patterns: a pattern whose request fails is skipped.\<close>

fun ssm_paths_loop ::
  "aws_world \<Rightarrow> client_config \<Rightarrow> process_env \<Rightarrow> string list \<Rightarrow> string jsobj \<Rightarrow> string jsobj" where
  "ssm_paths_loop w cc e [] acc = acc"
| "ssm_paths_loop w cc e (pathPattern # rest) acc =
     (case ssm_getParametersByPath w cc e pathPattern of
        Inl err \<Rightarrow> ssm_paths_loop w cc e rest acc
      | Inr None \<Rightarrow> ssm_paths_loop w cc e rest acc
      | Inr (Some params) \<Rightarrow> ssm_paths_loop w cc e rest (ssm_params_loop pathPattern params acc))"

text \<open>
  \<open>extractSSMParameters\<close>. With no stack name, \<open>stackName.toLowerCase()\<close> throws inside the
  outer \<open>try\<close>, whose handler only warns: the result is the empty record.
\<close>

definition extractSSMParameters :: "aws_world \<Rightarrow> client_config \<Rightarrow> process_env \<Rightarrow> cf_stack \<Rightarrow> string jsobj" where
  "extractSSMParameters w cc e stack =
     (case StackName stack of
        None \<Rightarrow> []
      | Some stackName' \<Rightarrow>
          ssm_paths_loop w cc e
            [''/'' @ stackName' @ ''/'',
             ''/'' @ toLowerCase stackName' @ ''/'',
             ''/stacks/'' @ stackName' @ ''/'',
             ''/cdk/'' @ stackName' @ ''/'']
            [])"

text \<open>\<open>/([a-z])([A-Z])/g\<close>, replaced by \<open>'$1_$2'\<close>.\<close>

definition lower_then_upper :: re where
  "lower_then_upper = Seq (Group 1 (one_of lower_letters)) (Group 2 (one_of upper_letters))"

definition dollar1_dollar2 :: "rematch \<Rightarrow> string" where
  "dollar1_dollar2 m = or_empty (group m 1) @ ''_'' @ or_empty (group m 2)"

definition outputEnvVarName :: "string \<Rightarrow> string" where
  "outputEnvVarName key = toUpperCase (replace_g lower_then_upper dollar1_dollar2 key)"

definition generateEnvVarsFromOutputs :: "string jsobj \<Rightarrow> string jsobj" where
  "generateEnvVarsFromOutputs outs =
     foldl (\<lambda>envVars (key, value). js_assign (outputEnvVarName key) value envVars) [] outs"

text \<open>\<open>/[^a-zA-Z0-9]/g\<close>, \<open>/_{2,}/g\<close>, \<open>/^_|_$/g\<close>.\<close>

definition non_alnum :: re where
  "non_alnum = none_of (lower_letters @ upper_letters @ digits)"

definition underscores2 :: re where
  "underscores2 = Seq (chr CHR ''_'') (Seq (chr CHR ''_'') (Star (chr CHR ''_'')))"

definition boundary_underscore :: re where
  "boundary_underscore = Alt (Seq Bol (chr CHR ''_'')) (Seq (chr CHR ''_'') Eol)"

definition ssmEnvVarName :: "string \<Rightarrow> string" where
  "ssmEnvVarName key =
     toUpperCase
       (replace_g boundary_underscore (\<lambda>_. [])
          (replace_g underscores2 (\<lambda>_. ''_'')
             (replace_g non_alnum (\<lambda>_. ''_'') key)))"

definition generateEnvVarsFromSSM :: "string jsobj \<Rightarrow> string jsobj" where
  "generateEnvVarsFromSSM ssmParams =
     foldl (\<lambda>envVars (key, value).
              if ssmEnvVarName key \<noteq> [] then js_assign (ssmEnvVarName key) value envVars else envVars)
       [] ssmParams"

text \<open>
  The object spread \<open>{...a, ...b}\<close>: the own properties of \<open>a\<close>, then those of \<open>b\<close>, are
  defined on a new object.
\<close>

definition spread :: "string jsobj \<Rightarrow> string jsobj \<Rightarrow> string jsobj" where
  "spread a b = foldl (\<lambda>acc (k, v). define_property k v acc) [] (a @ b)"

text \<open>
  \<open>s.trim()\<close>. The white space and line terminators below 256: space, tab, line feed,
  vertical tab, form feed, carriage return and the no-break space.
\<close>

definition white_space :: string where
  "white_space = [CHR '' '', CHR 0x09, CHR 0x0A, CHR 0x0B, CHR 0x0C, CHR 0x0D, CHR 0xA0]"

definition trim :: "string \<Rightarrow> string" where
  "trim s = rev (dropWhile (\<lambda>c. c \<in> set white_space) (rev (dropWhile (\<lambda>c. c \<in> set white_space) s)))"

text \<open>\<open>/arn:aws:cloudformation:[^:]+:[^:]+:stack\/([^\/]+)/\<close>.\<close>

definition stack_arn :: re where
  "stack_arn =
     Seq (lit ''arn:aws:cloudformation:'')
       (Seq (Plus (none_of '':'')) (Seq (chr CHR '':'')
          (Seq (Plus (none_of '':'')) (Seq (lit '':stack/'') (Group 1 (Plus (none_of ''/'')))))))"

definition tag_dependencies :: "cf_tag \<Rightarrow> string list" where
  "tag_dependencies tag =
     (if Key tag = Some ''Dependencies'' \<and> truthy (Value tag)
      then map trim (split_on CHR '','' (or_empty (Value tag))) else [])"

definition output_dependencies :: "cf_stack \<Rightarrow> cf_output \<Rightarrow> string list" where
  "output_dependencies stack output =
     (if truthy (OutputValue output) \<and> str_includes (or_empty (OutputValue output)) ''arn:aws:cloudformation''
      then (case re_match stack_arn (or_empty (OutputValue output)) of
              None \<Rightarrow> []
            | Some arnMatch \<Rightarrow>
                if truthy (group arnMatch 1) \<and> group arnMatch 1 \<noteq> StackName stack
                then [or_empty (group arnMatch 1)] else [])
      else [])"

definition extractDependencies :: "cf_stack \<Rightarrow> string list" where
  "extractDependencies stack =
     foldl set_add []
       (concat (map tag_dependencies (case Tags stack of None \<Rightarrow> [] | Some ts \<Rightarrow> ts)) @
        concat (map (output_dependencies stack) (case Outputs stack of None \<Rightarrow> [] | Some os \<Rightarrow> os)))"

definition readyStatuses :: "string list" where
  "readyStatuses = [''CREATE_COMPLETE'', ''UPDATE_COMPLETE'']"

definition isStackReady :: "cf_stack \<Rightarrow> bool" where
  "isStackReady stack = (or_empty (StackStatus stack) \<in> set readyStatuses)"

definition extractRequirements ::
  "aws_world \<Rightarrow> client_config \<Rightarrow> process_env \<Rightarrow> cf_stack \<Rightarrow> AWSProfileConfig \<Rightarrow> StackRequirements" where
  "extractRequirements w cc e stack profileConfig =
     (let outs = extractOutputs stack;
          params = extractParameters stack;
          ssmParams = extractSSMParameters w cc e stack
      in \<lparr>stackName = StackName stack,
          req_region = region_of profileConfig e,
          outputs = outs,
          parameters = params,
          req_environmentVariables = spread (generateEnvVarsFromOutputs outs) (generateEnvVarsFromSSM ssmParams),
          req_dependencies = extractDependencies stack,
          status = StackStatus stack,
          readyForDeployment = isStackReady stack,
          ssmParameters = ssmParams\<rparr>)"

definition generateErrorRecommendations :: "string \<Rightarrow> string list" where
  "generateErrorRecommendations errorMessage =
     (if str_includes errorMessage ''AccessDenied'' \<or> str_includes errorMessage ''UnauthorizedOperation''
      then [''Check that your AWS credentials have CloudFormation:DescribeStacks permission'',
            ''Verify the correct AWS profile is being used'',
            ''Ensure the stack exists in the correct AWS account'']
      else if str_includes errorMessage ''ValidationError''
      then [''Verify the stack name is correct and exists'',
            ''Check that you are querying the correct AWS region'',
            ''Ensure the stack is not in a DELETE_COMPLETE state'']
      else if str_includes errorMessage ''does not exist''
      then [''Create the stack first using CDK or CloudFormation'',
            ''Verify you are connected to the correct AWS account'',
            ''Check the correct region is specified'']
      else [''Check your internet connection'',
            ''Verify AWS credentials are configured'',
            ''Try again with a different AWS profile or region''])"

definition not_found_recommendations :: "string list" where
  "not_found_recommendations =
     [''Verify the stack name is correct'',
      ''Check that the stack exists in the specified region'',
      ''Ensure your AWS credentials have permission to describe the stack'']"

text \<open>
  \<open>inspectStack\<close>: the process environment after the call, the events emitted in order,
  and the result. The function has no path on which it throws.
\<close>

definition inspectStack ::
  "aws_world \<Rightarrow> string \<Rightarrow> AWSProfileConfig \<Rightarrow> process_env \<Rightarrow> process_env \<times> event list \<times> StackInspectionResult"
where
  "inspectStack w stackName' profileConfig e =
     (let before = BeforeStackInspection stackName' (region profileConfig) (profile profileConfig);
          (cc, e') = initializeClients profileConfig e
      in case getStackDetails w cc e' stackName' of
           Inl err \<Rightarrow>
             (e', [before, StackInspectionFailed stackName' (err_message err)],
              \<lparr>success = False, requirements = None, error = Some (err_message err),
               recommendations = Some (generateErrorRecommendations (err_message err))\<rparr>)
         | Inr None \<Rightarrow>
             (e', [before],
              \<lparr>success = False, requirements = None,
               error = Some (''Stack '' @ [CHR 0x27] @ stackName' @ [CHR 0x27] @ '' not found or not accessible''),
               recommendations = Some not_found_recommendations\<rparr>)
         | Inr (Some stackData) \<Rightarrow>
             (let reqs = extractRequirements w cc e' stackData profileConfig
              in (e',
                  [before,
                   AfterStackInspection stackName' reqs (length (outputs reqs))
                     (length (req_environmentVariables reqs)) (length (req_dependencies reqs))
                     (readyForDeployment reqs)],
                  \<lparr>success = True, requirements = Some reqs, error = None, recommendations = None\<rparr>)))"

section \<open>Plugin: environment validation (index.ts)\<close>

text \<open>
  The argument \<open>stackRequirements\<close> is untyped: it may be \<open>undefined\<close> (\<open>None\<close> below),
  and so may its \<open>environmentVariables\<close> and each value in it.
\<close>

record env_requirements =
  environmentVariables :: "jsval jsobj option"

record validation =
  valid :: bool
  missing :: "string list"
  resolved :: "string jsobj"

text \<open>\<open>sources.find(v => v !== undefined)\<close>: the first such element, else \<open>undefined\<close>.\<close>

definition find_defined :: "jsval list \<Rightarrow> jsval" where
  "find_defined sources = (case List.find (\<lambda>v. v \<noteq> JUndefined) sources of None \<Rightarrow> JUndefined | Some v \<Rightarrow> v)"

definition sources_of :: "process_env \<Rightarrow> string \<Rightarrow> string \<Rightarrow> jsval \<Rightarrow> jsval list" where
  "sources_of e environment varName stackValue =
     [env_get e varName,
      env_get e (toUpperCase environment @ ''_'' @ varName),
      stackValue]"

text \<open>The \<open>for\<close> loop over \<open>Object.entries\<close>, threading \<open>resolved\<close> and \<open>missing\<close>.\<close>

fun resolve_loop ::
  "process_env \<Rightarrow> string \<Rightarrow> jsval jsobj \<Rightarrow> string jsobj \<times> string list \<Rightarrow> string jsobj \<times> string list"
where
  "resolve_loop e environment [] acc = acc"
| "resolve_loop e environment ((varName, stackValue) # rest) (res, mis) =
     (let resolvedValue = find_defined (sources_of e environment varName stackValue)
      in if resolvedValue \<noteq> JUndefined
         then resolve_loop e environment rest (js_assign varName (js_String resolvedValue) res, mis)
         else resolve_loop e environment rest (res, mis @ [varName]))"

text \<open>
  \<open>validateEnvironmentVariables\<close>: the events it emits, and the value it returns or the
  error it throws. Reading \<open>stackRequirements.environmentVariables\<close> of \<open>undefined\<close>
  throws a \<open>TypeError\<close> inside the \<open>try\<close>; the handler emits the failed event with the
  (still empty) missing list and rethrows.
\<close>

definition validateEnvironmentVariables ::
  "process_env \<Rightarrow> string \<Rightarrow> string \<Rightarrow> env_requirements option \<Rightarrow> event list \<times> (js_error + validation)"
where
  "validateEnvironmentVariables e serviceName environment stackRequirements =
     (let before = BeforeEnvironmentValidation serviceName environment in
      case stackRequirements of
        None \<Rightarrow>
          (let errorMsg = ''Cannot read properties of undefined (reading 'environmentVariables')''
           in ([before, EnvironmentValidationFailed serviceName environment [] [errorMsg]],
               Inl (Error errorMsg)))
      | Some rq \<Rightarrow>
          (let entries = (case environmentVariables rq of None \<Rightarrow> [] | Some vs \<Rightarrow> vs);
               (res, mis) = resolve_loop e environment entries ([], []);
               ok = (length mis = 0)
           in ([before,
                if ok then EnvironmentValidated serviceName environment res mis
                else EnvironmentValidationFailed serviceName environment mis
                       (map (\<lambda>v. ''Missing required environment variable: '' @ v) mis)],
               Inr \<lparr>valid = ok, missing = mis, resolved = res\<rparr>)))"

section \<open>Plugin: remote deployment (index.ts)\<close>

record ServerlessService =
  name :: string
  path :: string
  configFile :: string
  dependencies :: "string list"

record ServerlessDeploymentOptions =
  stage :: string
  opt_region :: "string option"
  environment :: "string option"
  dryRun :: bool

text \<open>
  The plugin's configuration, as far as these functions read it:
  \<open>enableRemoteDeployment\<close> (the stack inspector exists exactly when it is set),
  \<open>stackInspection?.defaultProfile\<close>, \<open>stackInspection?.defaultRegion\<close>, and whether the
  hot reloader exists.
\<close>

record plugin_config =
  enableRemoteDeployment :: bool
  defaultProfile :: "string option"
  defaultRegion :: "string option"
  hotReloadingEnabled :: bool

text \<open>
  What the local deployment reads from outside: whether the configuration file exists,
  whether the command-line tool is there, the outcome of its \<open>package\<close> and \<open>deploy\<close>
  commands (run in the process environment), the outputs parsed from its \<open>info\<close>
  command, \<open>path.join\<close>, and the outcome of starting the watcher.
\<close>

record local_world =
  fs_existsSync :: "string \<Rightarrow> bool"
  hasServerlessCLI :: "process_env \<Rightarrow> bool"
  cli_package :: "process_env \<Rightarrow> string \<Rightarrow> string \<Rightarrow> string option \<Rightarrow> js_error option"
  cli_deploy :: "process_env \<Rightarrow> string \<Rightarrow> string \<Rightarrow> string option \<Rightarrow> js_error option"
  extractServiceOutputs :: "process_env \<Rightarrow> ServerlessService \<Rightarrow> string \<Rightarrow> string jsobj"
  path_join :: "string \<Rightarrow> string \<Rightarrow> string"
  startWatching :: "ServerlessService \<Rightarrow> js_error option"

definition shouldEnableHotReload :: "ServerlessDeploymentOptions \<Rightarrow> bool" where
  "shouldEnableHotReload options = (stage options = ''local'' \<or> stage options = ''dev'')"

text \<open>The \<open>try\<close> block of \<open>deployServiceLocal\<close>: the events it emits and the error it throws, if any.\<close>

definition local_try ::
  "local_world \<Rightarrow> plugin_config \<Rightarrow> ServerlessService \<Rightarrow> ServerlessDeploymentOptions \<Rightarrow> process_env
     \<Rightarrow> event list \<times> js_error option"
where
  "local_try lw cfg service options e =
     (if configFile service = [] \<or> \<not> fs_existsSync lw (configFile service)
      then ([], Some (Error (''Serverless configuration file not found: '' @
                               (if configFile service = [] then ''serverless.yml'' else configFile service))))
      else if \<not> hasServerlessCLI lw e
      then ([], Some (Error ''Serverless Framework CLI not found. Please install it: npm install -g serverless''))
      else case cli_package lw e (path service) (stage options) (opt_region options) of
             Some err \<Rightarrow> ([BeforeServicePackage (name service)], Some err)
           | None \<Rightarrow>
               (let packaged = [BeforeServicePackage (name service),
                                AfterServicePackage (name service) (path_join lw (path service) ''.serverless'')]
                in case (if dryRun options then None
                         else cli_deploy lw e (path service) (stage options) (opt_region options)) of
                     Some err \<Rightarrow> (packaged, Some err)
                   | None \<Rightarrow>
                       (let deployed = packaged @
                              [AfterServiceDeploy (name service) (stage options) True
                                 (Some (extractServiceOutputs lw e service (stage options))) None]
                        in if hotReloadingEnabled cfg \<and> shouldEnableHotReload options
                           then (deployed, startWatching lw service)
                           else (deployed, None))))"

definition deployServiceLocal ::
  "local_world \<Rightarrow> plugin_config \<Rightarrow> ServerlessService \<Rightarrow> ServerlessDeploymentOptions \<Rightarrow> process_env
     \<Rightarrow> event list \<times> js_error option"
where
  "deployServiceLocal lw cfg service options e =
     (let before = BeforeServiceDeploy (name service) (stage options) (configFile service)
      in case local_try lw cfg service options e of
           (evs, None) \<Rightarrow> (before # evs, None)
         | (evs, Some err) \<Rightarrow>
             (before # evs @ [AfterServiceDeploy (name service) (stage options) False None (Some (message err))],
              Some err))"

text \<open>\<open>a || b\<close> on optional strings.\<close>

definition or_opt :: "string option \<Rightarrow> string option \<Rightarrow> string option" where
  "or_opt a b = (if truthy a then a else b)"

text \<open>The plugin's \<open>inspectStack\<close>: it throws when the stack inspector was not created.\<close>

definition plugin_inspectStack ::
  "plugin_config \<Rightarrow> aws_world \<Rightarrow> string \<Rightarrow> string option \<Rightarrow> string option \<Rightarrow> process_env
     \<Rightarrow> process_env \<times> event list \<times> (js_error + StackInspectionResult)"
where
  "plugin_inspectStack cfg w stackName' profile' region' e =
     (if \<not> enableRemoteDeployment cfg
      then (e, [], Inl (Error ''Stack inspection is not enabled. Set enableRemoteDeployment: true in plugin config.''))
      else (let profileConfig = \<lparr>profile = or_opt profile' (defaultProfile cfg),
                                 region = or_opt region' (defaultRegion cfg),
                                 accessKeyId = None, secretAccessKey = None, sessionToken = None\<rparr>;
                (e', evs, res) = inspectStack w stackName' profileConfig e
            in (e', evs, Inr res)))"

text \<open>An optional string inside a template literal.\<close>

definition template :: "string option \<Rightarrow> string" where
  "template x = (case x of None \<Rightarrow> ''undefined'' | Some s \<Rightarrow> s)"

text \<open>The typed requirements, seen through the untyped parameter of the validation.\<close>

definition as_any :: "StackRequirements \<Rightarrow> env_requirements" where
  "as_any rq = \<lparr>environmentVariables = Some (map (\<lambda>(k, v). (k, JStr v)) (req_environmentVariables rq))\<rparr>"

definition missing_message :: "validation \<Rightarrow> StackRequirements \<Rightarrow> string" where
  "missing_message v rq =
     ''Missing required environment variables: '' @ join '', '' (missing v) @ [CHR 0x0A] @
     ''Available from stack: '' @ join '', '' (map fst (req_environmentVariables rq)) @ [CHR 0x0A] @
     ''Recommendations:'' @ [CHR 0x0A] @
     join [CHR 0x0A]
       (map (\<lambda>x. ''  - Set '' @ x @ ''='' @
                  (if truthy (map_of (req_environmentVariables rq) x)
                   then or_empty (map_of (req_environmentVariables rq) x) else ''<value>''))
          (missing v))"

text \<open>Step 3: \<open>process.env[varName] = value\<close> for every resolved variable.\<close>

definition inject :: "string jsobj \<Rightarrow> process_env \<Rightarrow> process_env" where
  "inject res e = foldl (\<lambda>acc (varName, value). acc(varName \<mapsto> value)) e res"

text \<open>
  The loop over \<open>service.dependencies\<close> inside the \<open>try\<close> of \<open>deployServiceRemote\<close>: the
  process environment and the events after it, and the error thrown, if any.
\<close>

fun dependencies_loop ::
  "plugin_config \<Rightarrow> aws_world \<Rightarrow> ServerlessService \<Rightarrow> ServerlessDeploymentOptions \<Rightarrow> string list
     \<Rightarrow> process_env \<times> event list \<Rightarrow> (process_env \<times> event list) \<times> js_error option"
where
  "dependencies_loop cfg w service options [] st = (st, None)"
| "dependencies_loop cfg w service options (d # rest) (e, evs) =
     (case plugin_inspectStack cfg w d (defaultProfile cfg) (defaultRegion cfg) e of
        (e1, evs1, Inl err) \<Rightarrow> ((e1, evs @ evs1), Some err)
      | (e1, evs1, Inr inspectionResult) \<Rightarrow>
          if \<not> success inspectionResult
          then ((e1, evs @ evs1),
                Some (Error (''Stack inspection failed for '' @ d @ '': '' @ template (error inspectionResult))))
          else (case requirements inspectionResult of
                  None \<Rightarrow>
                    ((e1, evs @ evs1),
                     Some (Error (''Stack '' @ d @ '' is not ready for deployment. Status: undefined'')))
                | Some rq \<Rightarrow>
                    if \<not> readyForDeployment rq
                    then ((e1, evs @ evs1),
                          Some (Error (''Stack '' @ d @ '' is not ready for deployment. Status: '' @
                                       template (status rq))))
                    else (case validateEnvironmentVariables e1 (name service)
                                 (if truthy (environment options) then or_empty (environment options)
                                  else ''default'')
                                 (Some (as_any rq)) of
                            (evs2, Inl err) \<Rightarrow> ((e1, evs @ evs1 @ evs2), Some err)
                          | (evs2, Inr v) \<Rightarrow>
                              if \<not> valid v
                              then ((e1, evs @ evs1 @ evs2), Some (Error (missing_message v rq)))
                              else dependencies_loop cfg w service options rest
                                     (inject (resolved v) e1, evs @ evs1 @ evs2))))"

text \<open>\<open>Math.round(ms / 1000)\<close> for an integer number of milliseconds.\<close>

definition round_seconds :: "int \<Rightarrow> int" where
  "round_seconds millis = (millis + 500) div 1000"

text \<open>
  The outcome of \<open>deployServiceRemote\<close>: the process environment after it, the events in
  the order emitted, how often the local deployment was invoked, and the error thrown to
  the caller, if any.
\<close>

record remote_run =
  env_after :: process_env
  emitted :: "event list"
  local_deployments :: nat
  thrown :: "js_error option"

text \<open>
  \<open>deployServiceRemote\<close>; \<open>startTime\<close> is what \<open>Date.now()\<close> gives at the start and
  \<open>endTime\<close> what it gives when the completion event is built.
\<close>

definition deployServiceRemote ::
  "plugin_config \<Rightarrow> aws_world \<Rightarrow> local_world \<Rightarrow> ServerlessService \<Rightarrow> ServerlessDeploymentOptions
     \<Rightarrow> int \<Rightarrow> int \<Rightarrow> process_env \<Rightarrow> remote_run"
where
  "deployServiceRemote cfg w lw service options startTime endTime e =
     (let started = RemoteDeployStarted (name service)
                      (if join '','' (dependencies service) \<noteq> [] then join '','' (dependencies service)
                       else name service)
                      (environment options) (defaultProfile cfg);
          duration = round_seconds (endTime - startTime);
          failed = (\<lambda>err. RemoteDeployCompleted (name service) (environment options) False duration
                             (Some (message err)))
      in case dependencies_loop cfg w service options (dependencies service) (e, [started]) of
           ((e1, evs), Some err) \<Rightarrow>
             \<lparr>env_after = e1, emitted = evs @ [failed err], local_deployments = 0, thrown = Some err\<rparr>
         | ((e1, evs), None) \<Rightarrow>
             (case deployServiceLocal lw cfg service options e1 of
                (evs1, Some err) \<Rightarrow>
                  \<lparr>env_after = e1, emitted = evs @ evs1 @ [failed err], local_deployments = 1,
                   thrown = Some err\<rparr>
              | (evs1, None) \<Rightarrow>
                  \<lparr>env_after = e1,
                   emitted = evs @ evs1 @
                     [RemoteDeployCompleted (name service) (environment options) True duration None],
                   local_deployments = 1, thrown = None\<rparr>))"

section \<open>Auxiliary notions for the proofs\<close>

text \<open>A match state \<open>y\<close> reached from \<open>x\<close>: further on in the same subject.\<close>

definition extends :: "mstate \<Rightarrow> mstate \<Rightarrow> bool" where
  "extends x y = (\<exists>u. fst (snd x) = u @ fst (snd y) \<and> fst y = fst x + length u)"

text \<open>The capture groups of a regular expression.\<close>

fun groups :: "re \<Rightarrow> nat set" where
  "groups (Seq r1 r2) = groups r1 \<union> groups r2"
| "groups (Alt r1 r2) = groups r1 \<union> groups r2"
| "groups (Star r) = groups r"
| "groups (Group n r) = insert n (groups r)"
| "groups _ = {}"

text \<open>A regular expression every match of which consumes at least one character.\<close>

definition advances :: "re \<Rightarrow> bool" where
  "advances r = (\<forall>x y. y \<in> set (ms r x) \<longrightarrow> fst x < fst y)"

text \<open>\<open>.+-stack\<close>.\<close>

definition stack_word :: re where
  "stack_word = Seq (Plus dot) (lit ''-stack'')"

text \<open>
  The containment the specification asks of a configuration path: the path is the
  project root itself or lies below it.
\<close>

definition descendant_of :: "string \<Rightarrow> string \<Rightarrow> bool" where
  "descendant_of baseDir p = (p = baseDir \<or> startsWith p (baseDir @ ''/''))"

text \<open>
  A file system with one small configuration file that refers to \<open>vpc-stack\<close>; every
  path is absolute and normal, so \<open>path.resolve\<close> leaves it as it is, and a loaded
  document is represented by its canonical text.
\<close>

definition example_fs :: "string scan_world" where
  "example_fs =
     \<lparr>cwd = ''/srv/app'', path_resolve = (\<lambda>p. p), fs_stat = (\<lambda>p. Inr 33),
      fs_readFile = (\<lambda>p. Inr ''vpcId: ${ssm:/vpc-stack/vpc-id}''),
      yaml_load = (\<lambda>text. Inr text), yaml_dump = (\<lambda>doc. Inr doc)\<rparr>"


text \<open>Kinds of events.\<close>

fun is_started :: "event \<Rightarrow> bool" where
  "is_started (RemoteDeployStarted _ _ _ _) = True"
| "is_started _ = False"

fun is_completed :: "event \<Rightarrow> bool" where
  "is_completed (RemoteDeployCompleted _ _ _ _ _) = True"
| "is_completed _ = False"

fun is_local_deploy :: "event \<Rightarrow> bool" where
  "is_local_deploy (BeforeServiceDeploy _ _ _) = True"
| "is_local_deploy (BeforeServicePackage _) = True"
| "is_local_deploy (AfterServicePackage _ _) = True"
| "is_local_deploy (AfterServiceDeploy _ _ _ _ _) = True"
| "is_local_deploy _ = False"

definition orchestration_event :: "event \<Rightarrow> bool" where
  "orchestration_event ev = (is_started ev \<or> is_completed ev \<or> is_local_deploy ev)"

text \<open>The error text of the inspector for a stack that does not exist.\<close>

definition not_found_error :: "string \<Rightarrow> string" where
  "not_found_error n = ''Stack '' @ [CHR 0x27] @ n @ [CHR 0x27] @ '' not found or not accessible''"

text \<open>
  A control plane that knows one stack, \<open>vpc-stack\<close>, complete and with one output, and
  answers \<open>ValidationError\<close> for every other name; the parameter store is empty.
\<close>

definition example_aws :: aws_world where
  "example_aws =
     \<lparr>cf_describeStacks =
        (\<lambda>cc e n. if n = ''vpc-stack''
                   then Inr (Some [\<lparr>StackName = Some ''vpc-stack'', StackStatus = Some ''CREATE_COMPLETE'',
                                     Outputs = Some [\<lparr>OutputKey = Some ''VpcId'', OutputValue = Some ''vpc-123''\<rparr>],
                                     Parameters = None, Tags = None\<rparr>])
                   else Inl \<lparr>err_name = ''ValidationError'',
                             err_message = ''Stack with id '' @ n @ '' does not exist''\<rparr>),
      ssm_getParametersByPath = (\<lambda>cc e p. Inr None)\<rparr>"

definition example_config :: plugin_config where
  "example_config =
     \<lparr>enableRemoteDeployment = True, defaultProfile = None, defaultRegion = Some ''eu-west-1'',
      hotReloadingEnabled = False\<rparr>"

definition example_profile :: AWSProfileConfig where
  "example_profile =
     \<lparr>profile = None, region = Some ''eu-west-1'', accessKeyId = None, secretAccessKey = None,
      sessionToken = None\<rparr>"

definition example_service :: ServerlessService where
  "example_service =
     \<lparr>name = ''api'', path = ''services/api'', configFile = ''services/api/serverless.yml'',
      dependencies = [''vpc-stack'', ''missing-stack'']\<rparr>"

definition example_options :: ServerlessDeploymentOptions where
  "example_options = \<lparr>stage = ''prod'', opt_region = None, environment = Some ''prod'', dryRun = False\<rparr>"

definition example_local :: local_world where
  "example_local =
     \<lparr>fs_existsSync = (\<lambda>p. True), hasServerlessCLI = (\<lambda>e. True),
      cli_package = (\<lambda>e p s r. None), cli_deploy = (\<lambda>e p s r. None),
      extractServiceOutputs = (\<lambda>e s st. []), path_join = (\<lambda>a b. a @ ''/'' @ b),
      startWatching = (\<lambda>s. None)\<rparr>"

text \<open>The requirements the inspector derives for \<open>vpc-stack\<close> in that control plane.\<close>

definition example_requirements :: StackRequirements where
  "example_requirements =
     \<lparr>stackName = Some ''vpc-stack'', req_region = ''eu-west-1'',
      outputs = [(''VpcId'', ''vpc-123'')], parameters = [],
      req_environmentVariables = [(''VPC_ID'', ''vpc-123'')], req_dependencies = [],
      status = Some ''CREATE_COMPLETE'', readyForDeployment = True, ssmParameters = []\<rparr>"


text \<open>The character classes \<open>[a-z]\<close>, \<open>[A-Z]\<close> and \<open>[a-zA-Z0-9]\<close>.\<close>

definition is_lower :: "char \<Rightarrow> bool" where
  "is_lower c = (c \<in> set lower_letters)"

definition is_upper :: "char \<Rightarrow> bool" where
  "is_upper c = (c \<in> set upper_letters)"

definition is_alnum :: "char \<Rightarrow> bool" where
  "is_alnum c = (c \<in> set (lower_letters @ upper_letters @ digits))"

text \<open>
  The specification's name of an output key: a separator between a lowercase letter and
  an uppercase letter that follows it, then the whole in upper case.
\<close>

fun insert_separators :: "string \<Rightarrow> string" where
  "insert_separators (a # b # rest) =
     (if is_lower a \<and> is_upper b then a # CHR ''_'' # insert_separators (b # rest)
      else a # insert_separators (b # rest))"
| "insert_separators s = s"

definition spec_output_name :: "string \<Rightarrow> string" where
  "spec_output_name key = toUpperCase (insert_separators key)"

text \<open>
  The specification's name of a configuration-store key: every run of non-alphanumeric
  characters replaced by one separator (\<open>in_run\<close> tells that the run's separator has
  been written), the separators at both ends trimmed, then the whole in upper case.
\<close>

fun collapse_runs :: "bool \<Rightarrow> string \<Rightarrow> string" where
  "collapse_runs in_run [] = []"
| "collapse_runs in_run (c # cs) =
     (if is_alnum c then c # collapse_runs False cs
      else if in_run then collapse_runs True cs
      else CHR ''_'' # collapse_runs True cs)"

definition trim_separators :: "string \<Rightarrow> string" where
  "trim_separators s = rev (dropWhile (\<lambda>c. c = CHR ''_'') (rev (dropWhile (\<lambda>c. c = CHR ''_'') s)))"

definition spec_store_name :: "string \<Rightarrow> string" where
  "spec_store_name key = toUpperCase (trim_separators (collapse_runs False key))"

text \<open>Runs of two or more separators replaced by one.\<close>

fun squeeze :: "string \<Rightarrow> string" where
  "squeeze (a # b # rest) =
     (if a = CHR ''_'' \<and> b = CHR ''_'' then squeeze (b # rest) else a # squeeze (b # rest))"
| "squeeze s = s"

text \<open>The text a segment of a scan contributes to the result of \<open>replace\<close>.\<close>

definition render :: "(rematch \<Rightarrow> string) \<Rightarrow> seg \<Rightarrow> string" where
  "render f x = (case x of Lit c \<Rightarrow> [c] | Hit m \<Rightarrow> f m)"

text \<open>The separator, one separator removed at either end, and strings without two adjacent separators.\<close>

definition us :: "char \<Rightarrow> bool" where
  "us c = (c = CHR ''_'')"

definition drop_last_us :: "string \<Rightarrow> string" where
  "drop_last_us s = (if s \<noteq> [] \<and> last s = CHR ''_'' then butlast s else s)"

definition drop_first_us :: "string \<Rightarrow> string" where
  "drop_first_us s = (case s of [] \<Rightarrow> [] | c # cs \<Rightarrow> if c = CHR ''_'' then cs else s)"

definition no_double :: "string \<Rightarrow> bool" where
  "no_double s = (\<forall>u v. s \<noteq> u @ ''__'' @ v)"

text \<open>
  The mapping C9 claims, from the outputs and the configuration-store values: the name
  of every store key gets its value, any other name the value of the output key with
  that name (among keys with the same name the one enumerated last counts, as in the
  successive assignments of the source).
\<close>

definition claimed_environmentVariables :: "string jsobj \<Rightarrow> string jsobj \<Rightarrow> string \<rightharpoonup> string" where
  "claimed_environmentVariables outs store n =
     (case map_of (rev (map (\<lambda>(k, v). (spec_store_name k, v)) store)) n of
        Some v \<Rightarrow> Some v
      | None \<Rightarrow> map_of (rev (map (\<lambda>(k, v). (spec_output_name k, v)) outs)) n)"

text \<open>The same, leaving out the store keys whose name is empty.\<close>

definition derived_environmentVariables :: "string jsobj \<Rightarrow> string jsobj \<Rightarrow> string \<rightharpoonup> string" where
  "derived_environmentVariables outs store n =
     (case map_of (rev (filter (\<lambda>(name', v). name' \<noteq> []) (map (\<lambda>(k, v). (spec_store_name k, v)) store))) n of
        Some v \<Rightarrow> Some v
      | None \<Rightarrow> map_of (rev (map (\<lambda>(k, v). (spec_output_name k, v)) outs)) n)"

text \<open>
  A parameter store that holds the parameter \<open>/vpc-stack/-\<close>, and stack \<open>vpc-stack\<close>
  without outputs.
\<close>

definition dash_aws :: aws_world where
  "dash_aws =
     \<lparr>cf_describeStacks = (\<lambda>cc e n. Inr None),
      ssm_getParametersByPath =
        (\<lambda>cc e p. if p = ''/vpc-stack/''
                   then Inr (Some [\<lparr>ssm_Name = Some ''/vpc-stack/-'', ssm_Value = Some ''x''\<rparr>])
                   else Inr None)\<rparr>"

definition dash_stack :: cf_stack where
  "dash_stack =
     \<lparr>StackName = Some ''vpc-stack'', StackStatus = Some ''CREATE_COMPLETE'', Outputs = None,
      Parameters = None, Tags = None\<rparr>"

definition dash_client :: client_config where
  "dash_client = \<lparr>client_region = ''eu-west-1'', client_credentials = None\<rparr>"

section \<open>Own properties and upper case\<close>

lemma keys_update: "fst ` set (AList.update k v al) = insert k (fst ` set al)"
  using dom_update[of k v al] by (simp add: dom_map_of_conv_image_fst)

text \<open>
  Defining or assigning a property updates the record as a mapping (but for the ignored
  assignment to \<open>__proto__\<close>) and keeps its keys distinct.
\<close>

lemma map_of_insert_index:
  "map_of obj k = None \<Longrightarrow> map_of (insert_index k v obj) = (map_of obj)(k \<mapsto> v)"
proof (induction obj)
  case Nil
  show ?case by simp
next
  case (Cons p obj)
  obtain k' v' where p: "p = (k', v')" by (cases p)
  from Cons.prems have ne: "k' \<noteq> k" and none: "map_of obj k = None"
    by (auto simp: p split: if_splits)
  show ?case using Cons.IH[OF none] ne by (auto simp: p)
qed

lemma keys_insert_index: "fst ` set (insert_index k v obj) = insert k (fst ` set obj)"
proof (induction obj)
  case Nil
  show ?case by simp
next
  case (Cons p obj)
  obtain k' v' where p: "p = (k', v')" by (cases p)
  show ?case by (simp add: p Cons.IH insert_commute)
qed

lemma distinct_insert_index:
  "map_of obj k = None \<Longrightarrow> distinct (map fst obj) \<Longrightarrow> distinct (map fst (insert_index k v obj))"
proof (induction obj)
  case Nil
  show ?case by simp
next
  case (Cons p obj)
  obtain k' v' where p: "p = (k', v')" by (cases p)
  from Cons.prems have ne: "k' \<noteq> k" and none: "map_of obj k = None"
    and d: "distinct (map fst obj)" and nin: "k' \<notin> fst ` set obj"
    by (auto simp: p split: if_splits)
  from none have "k \<notin> fst ` set obj" by (simp add: map_of_eq_None_iff)
  with Cons.IH[OF none d] ne nin d show ?case
    by (auto simp: p keys_insert_index)
qed

lemma map_of_define_property: "map_of (define_property k v obj) = (map_of obj)(k \<mapsto> v)"
  by (simp add: define_property_def map_of_insert_index update_conv')

lemma keys_define_property: "fst ` set (define_property k v obj) = insert k (fst ` set obj)"
  by (simp add: define_property_def keys_insert_index keys_update)

lemma distinct_define_property:
  "distinct (map fst obj) \<Longrightarrow> distinct (map fst (define_property k v obj))"
  by (simp add: define_property_def distinct_insert_index distinct_update)

lemma map_of_js_assign:
  "map_of (js_assign k v obj) =
     (if k = ''__proto__'' \<and> map_of obj k = None then map_of obj else (map_of obj)(k \<mapsto> v))"
  by (simp only: js_assign_def if_distrib[of map_of] map_of_define_property)

lemma keys_js_assign:
  "fst ` set (js_assign k v obj) =
     (if k = ''__proto__'' \<and> map_of obj k = None then fst ` set obj else insert k (fst ` set obj))"
  by (simp only: js_assign_def if_distrib[of set] if_distrib[of "(`) fst"] keys_define_property)

lemma distinct_js_assign:
  "distinct (map fst obj) \<Longrightarrow> distinct (map fst (js_assign k v obj))"
  by (simp add: js_assign_def distinct_define_property)

text \<open>No upper-case form has a letter \<open>a-z\<close>; so none is \<open>__proto__\<close>.\<close>

lemma toUpperChar_not_lower: "toUpperChar c \<notin> set lower_letters"
proof (cases "map_of (zip (lower_letters @ latin1_lower) (upper_letters @ latin1_upper)) c")
  case None
  have "length (lower_letters @ latin1_lower) = length (upper_letters @ latin1_upper)"
    by (simp add: lower_letters_def latin1_lower_def upper_letters_def latin1_upper_def)
  then have "map fst (zip (lower_letters @ latin1_lower) (upper_letters @ latin1_upper)) =
      lower_letters @ latin1_lower" by (rule map_fst_zip)
  then have "fst ` set (zip (lower_letters @ latin1_lower) (upper_letters @ latin1_upper)) =
      set (lower_letters @ latin1_lower)" by (metis set_map)
  with None have "c \<notin> set (lower_letters @ latin1_lower)"
    by (metis map_of_eq_None_iff)
  with None show ?thesis by (simp add: toUpperChar_def)
next
  case (Some u)
  then have "u \<in> set (upper_letters @ latin1_upper)"
    by (meson map_of_SomeD set_zip_rightD)
  then have "u \<notin> set lower_letters"
    by (auto simp: lower_letters_def latin1_lower_def upper_letters_def latin1_upper_def)
  with Some show ?thesis by (simp add: toUpperChar_def)
qed

lemma toUpperCase_not_lower: "c \<in> set lower_letters \<Longrightarrow> c \<notin> set (toUpperCase s)"
proof (induction s)
  case Nil
  show ?case by (simp add: toUpperCase_def)
next
  case (Cons a s)
  have "toUpperCase (a # s) = (if a = CHR 0xDF then ''SS'' else [toUpperChar a]) @ toUpperCase s"
    by (simp add: toUpperCase_def)
  moreover have "c \<notin> set ''SS''" using Cons.prems by (auto simp: lower_letters_def)
  moreover have "c \<noteq> toUpperChar a" using Cons.prems toUpperChar_not_lower[of a] by auto
  ultimately show ?case using Cons by auto
qed

lemma toUpperCase_not_proto: "toUpperCase s \<noteq> ''__proto__''"
proof
  assume "toUpperCase s = ''__proto__''"
  then have "CHR ''p'' \<in> set (toUpperCase s)" by simp
  moreover have "CHR ''p'' \<in> set lower_letters" by (simp add: lower_letters_def)
  ultimately show False using toUpperCase_not_lower by blast
qed

section \<open>Readiness\<close>

text \<open>
  C1. The readiness flag of the requirements is true exactly for the statuses
  \<open>CREATE_COMPLETE\<close> and \<open>UPDATE_COMPLETE\<close>; every other status, and a missing
  status, gives false. It is a function of the status field of the stack alone: the
  world, the clients' configuration, the process environment and the caller's profile
  configuration have no part in it.
\<close>

theorem readyForDeployment_iff:
  "readyForDeployment (extractRequirements w cc e stack profileConfig) =
     (StackStatus stack = Some ''CREATE_COMPLETE'' \<or> StackStatus stack = Some ''UPDATE_COMPLETE'')"
  by (cases "StackStatus stack")
     (auto simp: extractRequirements_def Let_def isStackReady_def readyStatuses_def or_empty_def)


section \<open>Environment resolution\<close>















section \<open>The regular-expression matcher\<close>


lemma extends_refl: "extends x x"
  by (simp add: extends_def)

lemma extends_trans: "extends x y \<Longrightarrow> extends y z \<Longrightarrow> extends x z"
  by (auto simp: extends_def)

lemma star_iter_extends:
  assumes f: "\<And>x y. y \<in> set (f x) \<Longrightarrow> extends x y"
  shows "y \<in> set (star_iter f n x) \<Longrightarrow> extends x y"
proof (induction n arbitrary: x)
  case 0
  then show ?case by (simp add: extends_refl)
next
  case (Suc n)
  from Suc.prems have "y = x \<or> (\<exists>z \<in> set (f x). y \<in> set (star_iter f n z))" by auto
  then show ?case
  proof
    assume "y = x" then show ?thesis by (simp add: extends_refl)
  next
    assume "\<exists>z \<in> set (f x). y \<in> set (star_iter f n z)"
    then obtain z where z: "z \<in> set (f x)" "y \<in> set (star_iter f n z)" by blast
    show ?thesis by (rule extends_trans[OF f[OF z(1)] Suc.IH[OF z(2)]])
  qed
qed

lemma ms_extends: "y \<in> set (ms r x) \<Longrightarrow> extends x y"
proof (induction r arbitrary: x y)
  case (Sym p)
  then show ?case by (cases x) (auto simp: extends_def split: list.splits if_splits)
next
  case (Seq r1 r2)
  from Seq.prems obtain z where z: "z \<in> set (ms r1 x)" "y \<in> set (ms r2 z)" by auto
  show ?case by (rule extends_trans[OF Seq.IH(1)[OF z(1)] Seq.IH(2)[OF z(2)]])
next
  case (Star r)
  from Star.prems have "y \<in> set (star_iter (ms r) (length (fst (snd x))) x)" by simp
  from star_iter_extends[of "ms r", OF Star.IH this] show ?case .
next
  case (Group n r)
  from Group.prems obtain z where z: "z \<in> set (ms r x)" "fst y = fst z" "fst (snd y) = fst (snd z)"
    by auto
  from Group.IH[OF z(1)] show ?case by (simp add: extends_def z)
next
  case (Alt r1 r2)
  from Alt.prems have "y \<in> set (ms r1 x) \<or> y \<in> set (ms r2 x)" by auto
  then show ?case using Alt.IH by blast
next
  case Eps
  then show ?case by (simp add: extends_refl)
next
  case Bol
  then show ?case by (simp add: extends_refl split: if_splits)
next
  case Eol
  then show ?case by (simp add: extends_refl split: if_splits)
qed

lemma star_iter_keeps:
  assumes f: "\<And>x y. y \<in> set (f x) \<Longrightarrow> map_of (snd (snd y)) k = map_of (snd (snd x)) k"
  shows "y \<in> set (star_iter f n x) \<Longrightarrow> map_of (snd (snd y)) k = map_of (snd (snd x)) k"
proof (induction n arbitrary: x)
  case 0
  then show ?case by simp
next
  case (Suc n)
  from Suc.prems have "y = x \<or> (\<exists>z \<in> set (f x). y \<in> set (star_iter f n z))" by auto
  then show ?case
  proof
    assume "y = x" then show ?thesis by simp
  next
    assume "\<exists>z \<in> set (f x). y \<in> set (star_iter f n z)"
    then obtain z where z: "z \<in> set (f x)" "y \<in> set (star_iter f n z)" by blast
    show ?thesis using f[OF z(1)] Suc.IH[OF z(2)] by simp
  qed
qed

lemma ms_keeps_group:
  "y \<in> set (ms r x) \<Longrightarrow> k \<notin> groups r \<Longrightarrow> map_of (snd (snd y)) k = map_of (snd (snd x)) k"
proof (induction r arbitrary: x y)
  case (Sym p)
  then show ?case by (auto split: list.splits if_splits)
next
  case (Seq r1 r2)
  from Seq.prems obtain z where z: "z \<in> set (ms r1 x)" "y \<in> set (ms r2 z)" by auto
  from Seq.prems(2) have k: "k \<notin> groups r1" "k \<notin> groups r2" by auto
  show ?case using Seq.IH(1)[OF z(1) k(1)] Seq.IH(2)[OF z(2) k(2)] by simp
next
  case (Star r)
  from Star.prems have y: "y \<in> set (star_iter (ms r) (length (fst (snd x))) x)" and k: "k \<notin> groups r" by simp_all
  from star_iter_keeps[of "ms r" k, OF Star.IH[OF _ k] y] show ?case .
next
  case (Group n r)
  from Group.prems obtain z where z: "z \<in> set (ms r x)" "snd (snd y) = (n, take (fst z - fst x) (fst (snd x))) # snd (snd z)"
    by auto
  from Group.prems(2) have k: "k \<noteq> n" "k \<notin> groups r" by auto
  from Group.IH[OF z(1) k(2)] show ?case by (simp add: z(2) k(1))
next
  case (Alt r1 r2)
  from Alt.prems have "y \<in> set (ms r1 x) \<or> y \<in> set (ms r2 x)"
    and k: "k \<notin> groups r1" "k \<notin> groups r2" by auto
  then show ?case using Alt.IH(1)[OF _ k(1)] Alt.IH(2)[OF _ k(2)] by blast
next
  case Eps
  then show ?case by simp
next
  case Bol
  then show ?case by (simp split: if_splits)
next
  case Eol
  then show ?case by (simp split: if_splits)
qed


section \<open>The base-name reducer\<close>


lemma extends_le: "extends x y \<Longrightarrow> fst x \<le> fst y"
  by (auto simp: extends_def)

lemma ms_Seq_mem: "y \<in> set (ms (Seq a b) x) \<longleftrightarrow> (\<exists>z \<in> set (ms a x). y \<in> set (ms b z))"
  by simp

lemma advances_Sym: "advances (Sym p)"
  by (auto simp: advances_def split: list.splits if_splits)

lemma advances_Seq1: "advances a \<Longrightarrow> advances (Seq a b)"
  unfolding advances_def
proof (intro allI impI)
  fix x y assume a: "\<forall>x y. y \<in> set (ms a x) \<longrightarrow> fst x < fst y" and y: "y \<in> set (ms (Seq a b) x)"
  from y obtain z where z: "z \<in> set (ms a x)" "y \<in> set (ms b z)" by auto
  from a z(1) have "fst x < fst z" by blast
  moreover from ms_extends[OF z(2)] have "fst z \<le> fst y" by (rule extends_le)
  ultimately show "fst x < fst y" by simp
qed

lemma advances_Plus: "advances a \<Longrightarrow> advances (Plus a)"
  unfolding Plus_def by (rule advances_Seq1)

lemma advances_dot: "advances dot"
  unfolding dot_def by (rule advances_Sym)

lemma Group_truthy:
  assumes adv: "advances r" and y: "y \<in> set (ms (Group n r) x)"
  shows "truthy (map_of (snd (snd y)) n)"
proof -
  from y obtain z where z: "z \<in> set (ms r x)"
      "snd (snd y) = (n, take (fst z - fst x) (fst (snd x))) # snd (snd z)"
    by auto
  from adv z(1) have lt: "fst x < fst z" unfolding advances_def by blast
  from ms_extends[OF z(1)] obtain u where u: "fst (snd x) = u @ fst (snd z)" "fst z = fst x + length u"
    by (auto simp: extends_def)
  from lt u(2) have "u \<noteq> []" by auto
  then show ?thesis by (simp add: z(2) u)
qed

lemma advances_stack_word: "advances stack_word"
  unfolding stack_word_def by (intro advances_Seq1 advances_Plus advances_dot)

lemma groups_placeholder: "groups placeholder = {}"
  by (simp add: placeholder_def Plus_def none_of_def chr_def)

lemma pattern1_truthy:
  assumes "y \<in> set (ms (Seq placeholder (Seq (chr CHR ''-'') (Group 1 (Seq (Plus dot) (lit ''-stack''))))) x)"
  shows "truthy (map_of (snd (snd y)) 1)"
proof -
  from assms obtain z where "y \<in> set (ms (Group 1 stack_word) z)"
    unfolding ms_Seq_mem stack_word_def by blast
  then show ?thesis by (rule Group_truthy[OF advances_stack_word])
qed

lemma pattern2_truthy:
  assumes "y \<in> set (ms (Seq (Group 1 (Plus dot)) (Seq (chr CHR ''-'') (Seq placeholder (Seq (chr CHR ''-'') (Group 2 (lit ''stack'')))))) x)"
  shows "truthy (map_of (snd (snd y)) 1)"
proof -
  let ?rest = "Seq (chr CHR ''-'') (Seq placeholder (Seq (chr CHR ''-'') (Group 2 (lit ''stack''))))"
  from assms obtain z where z: "z \<in> set (ms (Group 1 (Plus dot)) x)" "y \<in> set (ms ?rest z)"
    unfolding ms_Seq_mem[of y "Group 1 (Plus dot)"] by blast
  have "1 \<notin> groups ?rest" by (simp add: groups_placeholder chr_def)
  from ms_keeps_group[OF z(2) this] Group_truthy[OF advances_Plus[OF advances_dot] z(1)]
  show ?thesis by simp
qed

lemma pattern3_truthy:
  assumes "y \<in> set (ms (Seq (Group 1 (Seq (Plus dot) (lit ''-stack''))) (Seq (chr CHR ''-'') placeholder)) x)"
  shows "truthy (map_of (snd (snd y)) 1)"
proof -
  let ?rest = "Seq (chr CHR ''-'') placeholder"
  from assms obtain z where z: "z \<in> set (ms (Group 1 stack_word) x)" "y \<in> set (ms ?rest z)"
    unfolding ms_Seq_mem[of y "Group 1 (Seq (Plus dot) (lit ''-stack''))"] stack_word_def by blast
  have "1 \<notin> groups ?rest" by (simp add: groups_placeholder chr_def)
  from ms_keeps_group[OF z(2) this] Group_truthy[OF advances_stack_word z(1)]
  show ?thesis by simp
qed

lemma base_patterns_truthy:
  assumes p: "p \<in> set base_patterns" and y: "y \<in> set (ms p x)"
  shows "truthy (map_of (snd (snd y)) 1)"
proof -
  from p have "p = Seq placeholder (Seq (chr CHR ''-'') (Group 1 (Seq (Plus dot) (lit ''-stack''))))
     \<or> p = Seq (Group 1 (Plus dot)) (Seq (chr CHR ''-'') (Seq placeholder (Seq (chr CHR ''-'') (Group 2 (lit ''stack'')))))
     \<or> p = Seq (Group 1 (Seq (Plus dot) (lit ''-stack''))) (Seq (chr CHR ''-'') placeholder)"
    by (simp add: base_patterns_def)
  with y show ?thesis
    using pattern1_truthy pattern2_truthy pattern3_truthy by blast
qed

lemma match_at_member:
  "match_at r i s = Some m \<Longrightarrow> \<exists>y \<in> set (ms r (i, s, [])). captures m = snd (snd y)"
  by (auto simp: match_at_def split: list.splits)

lemma search_from_member:
  "search_from r i s = Some m \<Longrightarrow> \<exists>x. \<exists>y \<in> set (ms r x). captures m = snd (snd y)"
proof (induction s arbitrary: i)
  case Nil
  then show ?case using match_at_member by fastforce
next
  case (Cons c cs)
  then show ?case using match_at_member by (fastforce split: option.splits)
qed

lemma re_match_base_truthy:
  assumes "p \<in> set base_patterns" "re_match p s = Some m"
  shows "truthy (group m 1)"
proof -
  from assms(2) obtain x y where "y \<in> set (ms p x)" "captures m = snd (snd y)"
    unfolding re_match_def by (blast dest: search_from_member)
  with base_patterns_truthy[OF assms(1)] show ?thesis by (simp add: group_def)
qed

lemma try_patterns_not_null:
  "(\<forall>p \<in> set ps. \<forall>m. re_match p s = Some m \<longrightarrow> truthy (group m 1)) \<Longrightarrow>
   try_patterns ps s = Some r \<Longrightarrow> r \<noteq> None"
proof (induction ps)
  case Nil
  then show ?case by simp
next
  case (Cons p ps)
  show ?case
  proof (cases "re_match p s")
    case None
    with Cons show ?thesis by simp
  next
    case (Some m)
    from Cons.prems(1) Some have t: "truthy (group m 1)" by simp
    then obtain g where g: "group m 1 = Some g" by (cases "group m 1") auto
    have "try_patterns (p # ps) s =
            (if group m 2 = Some ''stack'' then Some (Some (g @ ''-stack'')) else Some (Some g))"
      using Some g t by simp
    with Cons.prems(2) show ?thesis by (cases "group m 2 = Some ''stack''") auto
  qed
qed

lemma fallback_cases:
  "try_patterns base_patterns s = None \<Longrightarrow>
   (extractBaseStackName s = None) = (cleanName_of s = [])"
  by (auto simp: extractBaseStackName_def Let_def endsWith_def split: option.splits)

text \<open>
  C8 (amended). The reducer returns \<open>null\<close> exactly when none of the three patterns
  matches and the cleaned name (placeholders replaced by the separator, boundary
  separators trimmed, repeated separators collapsed) is empty. So it returns a stack
  identifier for every payload that a pattern matches or whose cleaned name is not
  empty.
\<close>

theorem extractBaseStackName_null_iff:
  "(extractBaseStackName s = None) = (try_patterns base_patterns s = None \<and> cleanName_of s = [])"
proof (cases "try_patterns base_patterns s")
  case None
  then show ?thesis using fallback_cases by simp
next
  case (Some r)
  have "\<forall>p \<in> set base_patterns. \<forall>m. re_match p s = Some m \<longrightarrow> truthy (group m 1)"
    using re_match_base_truthy by blast
  from try_patterns_not_null[OF this Some] have "r \<noteq> None" .
  with Some show ?thesis by (simp add: extractBaseStackName_def)
qed

theorem extractBaseStackName_null_iff_witness:
  "try_patterns base_patterns ''prod-${self:service}-vpc'' = None \<and>
   cleanName_of ''prod-${self:service}-vpc'' = ''prod-vpc'' \<and>
   extractBaseStackName ''prod-${self:service}-vpc'' \<noteq> None"
proof -
  have a: "try_patterns base_patterns ''prod-${self:service}-vpc'' = None" by code_simp
  have b: "cleanName_of ''prod-${self:service}-vpc'' = ''prod-vpc''" by code_simp
  from extractBaseStackName_null_iff[of "''prod-${self:service}-vpc''"] a b show ?thesis by simp
qed

text \<open>
  C8 as stated fails: the payload \<open>${self:custom.stackName}\<close> is not empty, no pattern
  matches it, its cleaned name is empty, and the reducer returns \<open>null\<close>.
\<close>

theorem extractBaseStackName_placeholder_only_null:
  "''${self:custom.stackName}'' \<noteq> [] \<and> extractBaseStackName ''${self:custom.stackName}'' = None"
  by code_simp


section \<open>The dependency scanner never raises\<close>

lemma scan_try_aborts:
  assumes "\<not> isPathSafe w p root \<or> (\<exists>err. loadConfig w p = Inl err) \<or>
     (\<exists>d err. loadConfig w p = Inr d \<and> yaml_dump w d = Inl err)"
  shows "\<exists>err. scan_try w p root = ([], Inl err)"
  using assms by (auto simp: scan_try_def scanSSMReferences_def split: sum.splits)

text \<open>
  C3. \<open>scanDependencies\<close> always returns an array and never raises. Whenever the body of
  its \<open>try\<close> fails, the array is empty; in particular for an unsafe path, a failing
  \<open>stat\<close>, a file above the size limit, a failing read, a document that does not parse
  and a document that cannot be serialised, and in these cases nothing has been emitted.
\<close>

theorem scanDependencies_never_raises:
  "(\<exists>evs deps. scanDependencies w p root = (evs, Inr deps)) \<and>
   ((\<exists>err. snd (scan_try w p root) = Inl err) \<longrightarrow> snd (scanDependencies w p root) = Inr []) \<and>
   (\<not> isPathSafe w p root \<or>
    (\<exists>err. fs_stat w p = Inl err) \<or> (\<exists>n. fs_stat w p = Inr n \<and> maxFileSize < n) \<or>
    (\<exists>err. fs_readFile w p = Inl err) \<or>
    (\<exists>c err. fs_readFile w p = Inr c \<and> yaml_load w c = Inl err) \<or>
    (\<exists>c d err. fs_readFile w p = Inr c \<and> yaml_load w c = Inr d \<and> yaml_dump w d = Inl err)
    \<longrightarrow> scanDependencies w p root = ([], Inr []))"
proof (intro conjI impI)
  show "\<exists>evs deps. scanDependencies w p root = (evs, Inr deps)"
    by (cases "scan_try w p root") (auto simp: scanDependencies_def split: sum.splits)
next
  assume "\<exists>err. snd (scan_try w p root) = Inl err"
  then show "snd (scanDependencies w p root) = Inr []"
    by (cases "scan_try w p root") (auto simp: scanDependencies_def split: sum.splits)
next
  assume a: "\<not> isPathSafe w p root \<or>
    (\<exists>err. fs_stat w p = Inl err) \<or> (\<exists>n. fs_stat w p = Inr n \<and> maxFileSize < n) \<or>
    (\<exists>err. fs_readFile w p = Inl err) \<or>
    (\<exists>c err. fs_readFile w p = Inr c \<and> yaml_load w c = Inl err) \<or>
    (\<exists>c d err. fs_readFile w p = Inr c \<and> yaml_load w c = Inr d \<and> yaml_dump w d = Inl err)"
  have "\<not> isPathSafe w p root \<or> (\<exists>err. loadConfig w p = Inl err) \<or>
     (\<exists>d err. loadConfig w p = Inr d \<and> yaml_dump w d = Inl err)"
  proof (cases "loadConfig w p")
    case (Inl err)
    then show ?thesis by blast
  next
    case (Inr d)
    then have ok: "\<exists>n. fs_stat w p = Inr n \<and> \<not> maxFileSize < n"
       "\<exists>c. fs_readFile w p = Inr c \<and> yaml_load w c = Inr d"
      by (auto simp: loadConfig_def split: sum.splits if_splits)
    with a Inr show ?thesis by auto
  qed
  from scan_try_aborts[OF this] obtain err where "scan_try w p root = ([], Inl err)" by blast
  then show "scanDependencies w p root = ([], Inr [])" by (simp add: scanDependencies_def)
qed

theorem scanDependencies_never_raises_witness:
  "\<not> isPathSafe example_fs ''/etc/passwd'' (Some ''/srv/app'') \<and>
   scanDependencies example_fs ''/etc/passwd'' (Some ''/srv/app'') = ([], Inr [])"
  using scanDependencies_never_raises[of example_fs "''/etc/passwd''" "Some ''/srv/app''"]
  by (simp add: isPathSafe_def example_fs_def startsWith_def or_empty_def)

section \<open>Path containment\<close>

lemma example_fs_safe: "isPathSafe example_fs ''/srv/app-private/serverless.yml'' (Some ''/srv/app'')"
  by (simp add: isPathSafe_def example_fs_def startsWith_def or_empty_def)

lemma example_fs_load:
  "loadConfig example_fs ''/srv/app-private/serverless.yml'' = Inr ''vpcId: ${ssm:/vpc-stack/vpc-id}''"
  by (simp add: loadConfig_def example_fs_def maxFileSize_def)

lemma example_fs_ssm:
  "scanSSMReferences example_fs ''vpcId: ${ssm:/vpc-stack/vpc-id}'' ''/srv/app-private/serverless.yml'' =
     ([DependencyDetected ''ssm'' ''/srv/app-private/serverless.yml'' ''vpc-stack'' None], Inr [''vpc-stack''])"
  by code_simp

lemma example_fs_cf:
  "scanCFImports example_fs ''vpcId: ${ssm:/vpc-stack/vpc-id}'' ''/srv/app-private/serverless.yml'' = ([], Inr [])"
  by code_simp

text \<open>
  C6. The size limit is enforced as claimed, but the containment check is a comparison of
  string prefixes: with the project root \<open>/srv/app\<close>, the file
  \<open>/srv/app-private/serverless.yml\<close> is not below the root, and yet it is accepted, read,
  parsed and scanned.
\<close>

theorem scanDependencies_accepts_sibling_directory:
  "\<not> descendant_of ''/srv/app'' ''/srv/app-private/serverless.yml'' \<and>
   scanDependencies example_fs ''/srv/app-private/serverless.yml'' (Some ''/srv/app'') =
     ([DependencyDetected ''ssm'' ''/srv/app-private/serverless.yml'' ''vpc-stack'' None], Inr [''vpc-stack''])"
  by (simp add: descendant_of_def startsWith_def scanDependencies_def scan_try_def
        example_fs_safe example_fs_load example_fs_ssm example_fs_cf set_add_def)

section \<open>Notifications of the stack inspector\<close>

text \<open>
  The events of one inspection, by the outcome of \<open>getStackDetails\<close>: an exception is
  followed by the inspection-failed event, a stack by the after-inspection event, and no
  stack by nothing.
\<close>

lemma inspectStack_events_by_outcome:
  assumes "initializeClients profileConfig e = (cc, e')"
  shows "getStackDetails w cc e' n = Inl err \<Longrightarrow>
           fst (snd (inspectStack w n profileConfig e)) =
             [BeforeStackInspection n (region profileConfig) (profile profileConfig),
              StackInspectionFailed n (err_message err)]"
    and "getStackDetails w cc e' n = Inr (Some stackData) \<Longrightarrow>
           \<exists>reqs a b c d. fst (snd (inspectStack w n profileConfig e)) =
             [BeforeStackInspection n (region profileConfig) (profile profileConfig),
              AfterStackInspection n reqs a b c d]"
    and "getStackDetails w cc e' n = Inr None \<Longrightarrow>
           fst (snd (inspectStack w n profileConfig e)) =
             [BeforeStackInspection n (region profileConfig) (profile profileConfig)]"
  using assms by (simp_all add: inspectStack_def Let_def)

text \<open>
  C4. For a stack that does not exist the inspector returns
  \<open>{success: false, error, recommendations}\<close> without throwing, as claimed; but on this
  path it emits the before-inspection event only, neither the after-inspection nor the
  inspection-failed event.
\<close>

theorem inspectStack_not_found_emits_no_outcome_event:
  "inspectStack example_aws ''missing-stack'' example_profile Map.empty =
   (Map.empty,
    [BeforeStackInspection ''missing-stack'' (Some ''eu-west-1'') None],
    \<lparr>success = False, requirements = None,
     error = Some ''Stack 'missing-stack' not found or not accessible'',
     recommendations = Some [''Verify the stack name is correct'',
      ''Check that the stack exists in the specified region'',
      ''Ensure your AWS credentials have permission to describe the stack'']\<rparr>)"
  by (simp add: inspectStack_def initializeClients_def getStackDetails_def example_aws_def
        example_profile_def not_found_recommendations_def startsWith_def region_of_def or3_def
        or_empty_def)

section \<open>Remote deployment\<close>

lemma or_opt_same: "or_opt a a = a"
  by (simp add: or_opt_def)

lemma inspectStack_not_found:
  assumes "\<And>cc e'. getStackDetails w cc e' n = Inr None"
  shows "inspectStack w n pc e =
     (snd (initializeClients pc e), [BeforeStackInspection n (region pc) (profile pc)],
      \<lparr>success = False, requirements = None, error = Some (not_found_error n),
       recommendations = Some not_found_recommendations\<rparr>)"
  by (simp add: inspectStack_def assms not_found_error_def split: prod.splits)

lemma inspectStack_events:
  assumes "inspectStack w n pc e = (e', evs, r)"
  shows "filter orchestration_event evs = []"
  using assms
  by (auto simp: inspectStack_def Let_def orchestration_event_def split: prod.splits sum.splits option.splits)

lemma resolve_loop_as_any_missing:
  "snd (resolve_loop e envl (map (\<lambda>(k, v). (k, JStr v)) vars) (res0, mis0)) = mis0"
  by (induction vars arbitrary: res0 mis0)
     (auto simp: Let_def find_defined_def sources_of_def env_get_def split: option.splits)

lemma validate_as_any:
  "\<exists>v. validateEnvironmentVariables e svc envl (Some (as_any rq)) =
          ([BeforeEnvironmentValidation svc envl, EnvironmentValidated svc envl (resolved v) []], Inr v) \<and>
       valid v"
proof -
  obtain res mis where rl: "resolve_loop e envl (map (\<lambda>(k, v). (k, JStr v)) (req_environmentVariables rq)) ([], []) = (res, mis)"
    by (cases "resolve_loop e envl (map (\<lambda>(k, v). (k, JStr v)) (req_environmentVariables rq)) ([], [])")
  from resolve_loop_as_any_missing[of e envl "req_environmentVariables rq" "[]" "[]"] rl
  have "mis = []" by simp
  with rl show ?thesis
    by (simp add: validateEnvironmentVariables_def as_any_def Let_def)
qed

text \<open>
  C5. A remote deployment with two declared dependencies, the first of which inspects as
  ready (its variables then always resolve, the stack value being a source) and the
  second of which does not exist, fails: the error of the second inspection is thrown to
  the caller, the local deployment is not invoked and none of its events is emitted, the
  first event is the only start event, and the last event is the only completion event,
  with \<open>success: false\<close> and the message of the thrown error.
\<close>

theorem deployServiceRemote_second_dependency_not_found:
  assumes en: "enableRemoteDeployment cfg"
    and deps: "dependencies service = [d1, d2]"
    and first: "inspectStack w d1
                  \<lparr>profile = defaultProfile cfg, region = defaultRegion cfg, accessKeyId = None,
                   secretAccessKey = None, sessionToken = None\<rparr> e = (e1, evs1, r1)"
    and ok: "success r1" "requirements r1 = Some rq1" "readyForDeployment rq1"
    and second: "\<And>cc e'. getStackDetails w cc e' d2 = Inr None"
  shows "thrown (deployServiceRemote cfg w lw service options t0 t1 e) =
           Some (Error (''Stack inspection failed for '' @ d2 @ '': '' @ not_found_error d2)) \<and>
         local_deployments (deployServiceRemote cfg w lw service options t0 t1 e) = 0 \<and>
         filter is_local_deploy (emitted (deployServiceRemote cfg w lw service options t0 t1 e)) = [] \<and>
         filter is_started (emitted (deployServiceRemote cfg w lw service options t0 t1 e)) =
           [RemoteDeployStarted (name service) (d1 @ '','' @ d2) (environment options) (defaultProfile cfg)] \<and>
         hd (emitted (deployServiceRemote cfg w lw service options t0 t1 e)) =
           RemoteDeployStarted (name service) (d1 @ '','' @ d2) (environment options) (defaultProfile cfg) \<and>
         filter is_completed (emitted (deployServiceRemote cfg w lw service options t0 t1 e)) =
           [RemoteDeployCompleted (name service) (environment options) False (round_seconds (t1 - t0))
              (Some (''Stack inspection failed for '' @ d2 @ '': '' @ not_found_error d2))] \<and>
         last (emitted (deployServiceRemote cfg w lw service options t0 t1 e)) =
           RemoteDeployCompleted (name service) (environment options) False (round_seconds (t1 - t0))
              (Some (''Stack inspection failed for '' @ d2 @ '': '' @ not_found_error d2))"
proof -
  let ?pc = "\<lparr>profile = defaultProfile cfg, region = defaultRegion cfg, accessKeyId = None,
                   secretAccessKey = None, sessionToken = None\<rparr>"
  let ?envl = "if truthy (environment options) then or_empty (environment options) else ''default''"
  from validate_as_any[of e1 "name service" ?envl rq1]
  obtain v where v: "validateEnvironmentVariables e1 (name service) ?envl (Some (as_any rq1)) =
          ([BeforeEnvironmentValidation (name service) ?envl,
            EnvironmentValidated (name service) ?envl (resolved v) []], Inr v)" "valid v"
    by blast
  let ?evs2 = "[BeforeEnvironmentValidation (name service) ?envl,
            EnvironmentValidated (name service) ?envl (resolved v) []]"
  let ?e2 = "snd (initializeClients ?pc (inject (resolved v) e1))"
  have p1: "plugin_inspectStack cfg w d1 (defaultProfile cfg) (defaultRegion cfg) e = (e1, evs1, Inr r1)"
    by (simp add: plugin_inspectStack_def en or_opt_same first)
  have p2: "plugin_inspectStack cfg w d2 (defaultProfile cfg) (defaultRegion cfg) e' =
      (snd (initializeClients ?pc e'), [BeforeStackInspection d2 (defaultRegion cfg) (defaultProfile cfg)],
       Inr \<lparr>success = False, requirements = None, error = Some (not_found_error d2),
            recommendations = Some not_found_recommendations\<rparr>)" for e'
    by (simp add: plugin_inspectStack_def en or_opt_same inspectStack_not_found[OF second])
  have loop: "dependencies_loop cfg w service options [d1, d2] (e, evs0) =
      ((?e2, evs0 @ evs1 @ ?evs2 @ [BeforeStackInspection d2 (defaultRegion cfg) (defaultProfile cfg)]),
       Some (Error (''Stack inspection failed for '' @ d2 @ '': '' @ not_found_error d2)))" for evs0
    using v by (simp add: p1 p2 ok template_def)
  have run: "deployServiceRemote cfg w lw service options t0 t1 e =
        \<lparr>env_after = ?e2,
         emitted =
           RemoteDeployStarted (name service) (d1 @ '','' @ d2) (environment options) (defaultProfile cfg) #
           evs1 @ ?evs2 @
           [BeforeStackInspection d2 (defaultRegion cfg) (defaultProfile cfg),
            RemoteDeployCompleted (name service) (environment options) False (round_seconds (t1 - t0))
              (Some (''Stack inspection failed for '' @ d2 @ '': '' @ not_found_error d2))],
         local_deployments = 0,
         thrown = Some (Error (''Stack inspection failed for '' @ d2 @ '': '' @ not_found_error d2))\<rparr>"
    by (simp add: deployServiceRemote_def deps loop Let_def del: dependencies_loop.simps)
  from inspectStack_events[OF first]
  have none: "filter is_started evs1 = []" "filter is_completed evs1 = []" "filter is_local_deploy evs1 = []"
    by (auto simp: orchestration_event_def filter_empty_conv)
  show ?thesis unfolding run by (simp add: none)
qed

lemma example_first_inspection:
  "inspectStack example_aws ''vpc-stack''
     \<lparr>profile = defaultProfile example_config, region = defaultRegion example_config, accessKeyId = None,
      secretAccessKey = None, sessionToken = None\<rparr> Map.empty =
   (Map.empty,
    [BeforeStackInspection ''vpc-stack'' (Some ''eu-west-1'') None,
     AfterStackInspection ''vpc-stack'' example_requirements 1 1 0 True],
    \<lparr>success = True, requirements = Some example_requirements, error = None, recommendations = None\<rparr>)"
proof -
  have n: "outputEnvVarName ''VpcId'' = ''VPC_ID''" by code_simp
  show ?thesis
    by (simp add: inspectStack_def initializeClients_def getStackDetails_def example_aws_def
          example_config_def example_requirements_def extractRequirements_def extractOutputs_def
          extractParameters_def extractSSMParameters_def extractDependencies_def
          generateEnvVarsFromOutputs_def generateEnvVarsFromSSM_def spread_def n
          js_assign_def define_property_def is_array_index_def digits_def
          isStackReady_def readyStatuses_def region_of_def or3_def or_empty_def
          output_dependencies_def startsWith_def Let_def)
qed

lemma example_second_inspection: "getStackDetails example_aws cc e' ''missing-stack'' = Inr None"
  by (simp add: getStackDetails_def example_aws_def startsWith_def)

theorem deployServiceRemote_second_dependency_not_found_witness:
  "thrown (deployServiceRemote example_config example_aws example_local example_service example_options
             0 1500 Map.empty) =
     Some (Error ''Stack inspection failed for missing-stack: Stack 'missing-stack' not found or not accessible'') \<and>
   local_deployments (deployServiceRemote example_config example_aws example_local example_service
             example_options 0 1500 Map.empty) = 0 \<and>
   last (emitted (deployServiceRemote example_config example_aws example_local example_service
             example_options 0 1500 Map.empty)) =
     RemoteDeployCompleted ''api'' (Some ''prod'') False 2
       (Some ''Stack inspection failed for missing-stack: Stack 'missing-stack' not found or not accessible'')"
  using deployServiceRemote_second_dependency_not_found
          [of example_config example_service "''vpc-stack''" "''missing-stack''" example_aws Map.empty
              Map.empty _ _ example_requirements example_local example_options 0 1500,
           OF _ _ example_first_inspection _ _ _ example_second_inspection]
  by (simp add: example_config_def example_service_def example_options_def example_requirements_def
        not_found_error_def round_seconds_def)


section \<open>Evaluating the matcher\<close>

lemma star_sym_Nil: "ms (Star (Sym p)) (i, [], c) = [(i, [], c)]"
  by simp

lemma star_sym_Cons:
  "ms (Star (Sym p)) (i, a # t, c) =
     (if p a then ms (Star (Sym p)) (Suc i, t, c) @ [(i, a # t, c)] else [(i, a # t, c)])"
  by simp

lemma star_sym_head:
  "\<exists>tl. ms (Star (Sym p)) (i, s, c) = (i + length (takeWhile p s), dropWhile p s, c) # tl"
proof (induction s arbitrary: i)
  case Nil
  show ?case by simp
next
  case (Cons a t)
  show ?case
  proof (cases "p a")
    case True
    from Cons[of "Suc i"] obtain tl where
      "ms (Star (Sym p)) (Suc i, t, c) = (Suc i + length (takeWhile p t), dropWhile p t, c) # tl"
      by blast
    with True show ?thesis by (simp only: star_sym_Cons) simp
  next
    case False
    then show ?thesis by (simp only: star_sym_Cons) simp
  qed
qed

lemma seq_sym_Nil: "ms (Seq (Sym q) r) (i, [], c) = []"
  by simp

lemma seq_sym_Cons: "ms (Seq (Sym q) r) (i, a # t, c) = (if q a then ms r (Suc i, t, c) else [])"
  by simp

lemma concat_map_bind: "concat (map f (concat (map g xs))) = concat (map (\<lambda>x. concat (map f (g x))) xs)"
  by (induction xs) simp_all

lemma ms_Seq_fun: "ms (Seq b r) = (\<lambda>x. concat (map (ms r) (ms b x)))"
  by (rule ext) simp

lemma seq_assoc: "ms (Seq (Seq a b) r) x = ms (Seq a (Seq b r)) x"
  by (simp add: concat_map_bind ms_Seq_fun)


lemma ms_Eps_fun: "ms Eps = (\<lambda>x. [x])"
  by (rule ext) simp

lemma seq_Eps_right: "ms (Seq r Eps) x = ms r x"
  by (simp add: ms_Eps_fun)




section \<open>Derived environment variables\<close>

lemma render_simps: "render f (Lit c) = [c]" "render f (Hit m) = f m"
  by (simp_all add: render_def)

lemma render_fun: "(\<lambda>x. case x of Lit c \<Rightarrow> [c] | Hit m \<Rightarrow> f m) = render f"
  by (rule ext) (simp add: render_def)

lemma replace_g_render: "replace_g r f s = concat (map (render f) (gscan r 0 0 s))"
  by (simp add: replace_g_def render_fun)

lemma gscan_skip: "k \<le> length s \<Longrightarrow> gscan r k i s = gscan r 0 (i + k) (drop k s)"
proof (induction s arbitrary: k i)
  case Nil
  then show ?case by simp
next
  case (Cons c cs)
  show ?case
  proof (cases k)
    case 0
    then show ?thesis by simp
  next
    case (Suc k')
    with Cons.prems have "k' \<le> length cs" by simp
    from Cons.IH[OF this, of "Suc i"] Suc show ?thesis by simp
  qed
qed

lemma gscan_hit:
  assumes "match_at r i (c # cs) = Some m" "matched m \<noteq> []" "length (matched m) \<le> Suc (length cs)"
  shows "gscan r 0 i (c # cs) = Hit m # gscan r 0 (i + length (matched m)) (drop (length (matched m)) (c # cs))"
proof -
  from assms(2) obtain n where n: "length (matched m) = Suc n" by (cases "matched m") auto
  with assms(3) have "n \<le> length cs" by simp
  from gscan_skip[OF this, of r "Suc i"] assms(1,2) n show ?thesis by simp
qed

lemma gscan_miss: "match_at r i (c # cs) = None \<Longrightarrow> gscan r 0 i (c # cs) = Lit c # gscan r 0 (Suc i) cs"
  by simp

lemma gscan_end: "match_at r i [] = None \<Longrightarrow> gscan r 0 i [] = []"
  by simp

lemma upper_not_lower: "is_upper b \<Longrightarrow> \<not> is_lower b"
  by (auto simp: is_upper_def is_lower_def upper_letters_def lower_letters_def)

lemma lu_match2:
  "match_at lower_then_upper i (a # b # rest) =
     (if is_lower a \<and> is_upper b
      then Some \<lparr>index = i, matched = [a, b], captures = [(2, [b]), (1, [a])]\<rparr> else None)"
  by (simp add: match_at_def lower_then_upper_def one_of_def is_lower_def is_upper_def)

lemma lu_match1: "match_at lower_then_upper i [a] = None"
  by (simp add: match_at_def lower_then_upper_def one_of_def)

lemma lu_match0: "match_at lower_then_upper i [] = None"
  by (simp add: match_at_def lower_then_upper_def one_of_def)

lemma lu_upper_first: "is_upper b \<Longrightarrow> match_at lower_then_upper i (b # rest) = None"
  by (cases rest) (simp_all add: lu_match1 lu_match2 upper_not_lower)

lemma lu_scan:
  "concat (map (render dollar1_dollar2) (gscan lower_then_upper 0 i s)) = insert_separators s"
proof (induction s arbitrary: i rule: insert_separators.induct)
  case (1 a b rest)
  show ?case
  proof (cases "is_lower a \<and> is_upper b")
    case True
    then have m: "match_at lower_then_upper i (a # b # rest) =
        Some \<lparr>index = i, matched = [a, b], captures = [(2, [b]), (1, [a])]\<rparr>"
      by (simp add: lu_match2)
    have g: "gscan lower_then_upper 0 i (a # b # rest) =
        Hit \<lparr>index = i, matched = [a, b], captures = [(2, [b]), (1, [a])]\<rparr> #
        gscan lower_then_upper 0 (Suc (Suc i)) rest"
      using gscan_hit[OF m] by simp
    from True have "match_at lower_then_upper (Suc i) (b # rest) = None" by (simp add: lu_upper_first)
    then have g2: "gscan lower_then_upper 0 (Suc i) (b # rest) = Lit b # gscan lower_then_upper 0 (Suc (Suc i)) rest"
      by (rule gscan_miss)
    from "1.IH"(1)[OF True, of "Suc i"]
    have "b # concat (map (render dollar1_dollar2) (gscan lower_then_upper 0 (Suc (Suc i)) rest)) =
        insert_separators (b # rest)"
      by (simp add: g2 render_simps del: gscan.simps)
    moreover have "dollar1_dollar2 \<lparr>index = i, matched = [a, b], captures = [(2, [b]), (1, [a])]\<rparr> =
        [a, CHR ''_'', b]"
      by (simp add: dollar1_dollar2_def group_def or_empty_def)
    ultimately show ?thesis using True
      by (simp add: g render_simps del: gscan.simps)
  next
    case False
    then have "match_at lower_then_upper i (a # b # rest) = None" by (simp add: lu_match2)
    from gscan_miss[OF this] "1.IH"(2)[OF False, of "Suc i"] False show ?thesis
      by (simp add: render_simps del: gscan.simps)
  qed
qed (simp_all add: gscan_end[OF lu_match0] gscan_miss[OF lu_match1] render_simps del: gscan.simps)

lemma outputEnvVarName_spec: "outputEnvVarName key = spec_output_name key"
  by (simp add: outputEnvVarName_def spec_output_name_def replace_g_render lu_scan)

lemma na_match: "match_at non_alnum i (c # cs) =
    (if is_alnum c then None else Some \<lparr>index = i, matched = [c], captures = []\<rparr>)"
  by (simp add: match_at_def non_alnum_def none_of_def is_alnum_def)

lemma na_match0: "match_at non_alnum i [] = None"
  by (simp add: match_at_def non_alnum_def none_of_def)

lemma na_scan:
  "concat (map (render (\<lambda>_. ''_'')) (gscan non_alnum 0 i s)) =
     map (\<lambda>c. if is_alnum c then c else CHR ''_'') s"
proof (induction s arbitrary: i)
  case Nil
  show ?case using gscan_end[OF na_match0] by (simp del: gscan.simps)
next
  case (Cons c cs)
  show ?case
  proof (cases "is_alnum c")
    case True
    then have "match_at non_alnum i (c # cs) = None" by (simp add: na_match)
    from gscan_miss[OF this] Cons[of "Suc i"] True show ?thesis
      by (simp add: render_simps del: gscan.simps)
  next
    case False
    then have m: "match_at non_alnum i (c # cs) = Some \<lparr>index = i, matched = [c], captures = []\<rparr>"
      by (simp add: na_match)
    from gscan_hit[OF m] Cons[of "Suc i"] False show ?thesis
      by (simp add: render_simps del: gscan.simps)
  qed
qed

lemma chr_us: "chr CHR ''_'' = Sym us"
  by (simp add: chr_def us_def fun_eq_iff)

lemma u2_match:
  "match_at underscores2 i (CHR ''_'' # CHR ''_'' # rest) =
     Some \<lparr>index = i, matched = CHR ''_'' # CHR ''_'' # takeWhile us rest, captures = []\<rparr>"
proof -
  from star_sym_head[of us "Suc (Suc i)" rest "[]"] obtain tl where
    "ms (Star (Sym us)) (Suc (Suc i), rest, []) = (Suc (Suc i) + length (takeWhile us rest), dropWhile us rest, []) # tl"
    by blast
  then have "ms underscores2 (i, CHR ''_'' # CHR ''_'' # rest, []) =
      (Suc (Suc i) + length (takeWhile us rest), dropWhile us rest, []) # tl"
    unfolding underscores2_def chr_us by (simp only: seq_sym_Cons) (simp add: us_def)
  then show ?thesis
    by (simp add: match_at_def del: ms.simps) (metis takeWhile_eq_take)
qed

lemma u2_nomatch1: "a \<noteq> CHR ''_'' \<Longrightarrow> match_at underscores2 i (a # rest) = None"
  by (simp add: match_at_def underscores2_def chr_def)

lemma u2_nomatch2: "b \<noteq> CHR ''_'' \<Longrightarrow> match_at underscores2 i (a # b # rest) = None"
  by (simp add: match_at_def underscores2_def chr_def)

lemma u2_nomatch_single: "match_at underscores2 i [a] = None"
  by (simp add: match_at_def underscores2_def chr_def)

lemma u2_nomatch0: "match_at underscores2 i [] = None"
  by (simp add: match_at_def underscores2_def chr_def)

lemma squeeze_other: "a \<noteq> CHR ''_'' \<Longrightarrow> squeeze (a # t) = a # squeeze t"
  by (cases t) simp_all

lemma squeeze_us: "squeeze (CHR ''_'' # s) = CHR ''_'' # squeeze (dropWhile us s)"
proof (induction s)
  case Nil
  show ?case by simp
next
  case (Cons c cs)
  show ?case
  proof (cases "c = CHR ''_''")
    case True
    with Cons show ?thesis by (simp add: us_def)
  next
    case False
    then show ?thesis by (simp add: us_def)
  qed
qed

lemma u2_scan:
  "concat (map (render (\<lambda>_. ''_'')) (gscan underscores2 0 i s)) = squeeze s"
proof (induction s arbitrary: i rule: length_induct)
  case (1 s)
  show ?case
  proof (cases s)
    case Nil
    then show ?thesis using gscan_end[OF u2_nomatch0] by (simp del: gscan.simps)
  next
    case (Cons a t)
    show ?thesis
    proof (cases "a = CHR ''_'' \<and> t \<noteq> [] \<and> hd t = CHR ''_''")
      case True
      then obtain rest where s: "s = CHR ''_'' # CHR ''_'' # rest" using Cons by (cases t) auto
      let ?m = "\<lparr>index = i, matched = CHR ''_'' # CHR ''_'' # takeWhile us rest, captures = []\<rparr>"
      have m: "match_at underscores2 i (CHR ''_'' # CHR ''_'' # rest) = Some ?m" by (rule u2_match)
      have len: "length (matched ?m) \<le> Suc (length (CHR ''_'' # rest))"
        by (simp add: length_takeWhile_le)
      have dr: "drop (length (matched ?m)) (CHR ''_'' # CHR ''_'' # rest) = dropWhile us rest"
        by (simp add: dropWhile_eq_drop)
      from gscan_hit[OF m _ len]
      have g: "gscan underscores2 0 i s = Hit ?m # gscan underscores2 0 (i + length (matched ?m)) (dropWhile us rest)"
        unfolding s dr by simp
      have "length (dropWhile us rest) < length s" unfolding s
        by (simp add: length_dropWhile_le le_imp_less_Suc less_SucI)
      with 1 have ih: "concat (map (render (\<lambda>_. ''_'')) (gscan underscores2 0 (i + length (matched ?m)) (dropWhile us rest))) =
          squeeze (dropWhile us rest)" by blast
      have "squeeze s = CHR ''_'' # squeeze (dropWhile us rest)"
        unfolding s using squeeze_us[of "CHR ''_'' # rest"] by (simp add: us_def)
      with g ih show ?thesis by (simp add: render_simps del: gscan.simps)
    next
      case False
      have nm: "match_at underscores2 i (a # t) = None"
      proof (cases "a = CHR ''_''")
        case True
        with False have "t = [] \<or> hd t \<noteq> CHR ''_''" by blast
        then show ?thesis
          by (cases t) (simp_all add: u2_nomatch_single u2_nomatch2)
      next
        case False
        then show ?thesis by (rule u2_nomatch1)
      qed
      have "length t < length s" using Cons by simp
      with 1 have ih: "concat (map (render (\<lambda>_. ''_'')) (gscan underscores2 0 (Suc i) t)) = squeeze t"
        by blast
      have "squeeze (a # t) = a # squeeze t" using False by (cases t) auto
      with gscan_miss[OF nm] ih Cons show ?thesis by (simp add: render_simps del: gscan.simps)
    qed
  qed
qed

lemma alnum_not_us: "is_alnum c \<Longrightarrow> c \<noteq> CHR ''_''"
  by (auto simp: is_alnum_def lower_letters_def upper_letters_def digits_def)

lemma squeeze_collapse:
  "squeeze (map (\<lambda>c. if is_alnum c then c else CHR ''_'') s) = collapse_runs False s \<and>
   squeeze (CHR ''_'' # map (\<lambda>c. if is_alnum c then c else CHR ''_'') s) = CHR ''_'' # collapse_runs True s"
proof (induction s)
  case Nil
  show ?case by simp
next
  case (Cons c cs)
  show ?case
  proof (cases "is_alnum c")
    case True
    then have "c \<noteq> CHR ''_''" by (rule alnum_not_us)
    with True Cons show ?thesis by (simp add: squeeze_other)
  next
    case False
    with Cons show ?thesis by simp
  qed
qed

lemma bu_match:
  "match_at boundary_underscore i (c # cs) =
     (if c = CHR ''_'' \<and> (i = 0 \<or> cs = []) then Some \<lparr>index = i, matched = [c], captures = []\<rparr> else None)"
  by (simp add: match_at_def boundary_underscore_def chr_def)

lemma bu_match0: "match_at boundary_underscore i [] = None"
  by (simp add: match_at_def boundary_underscore_def chr_def)

lemma drop_last_us_Cons:
  "drop_last_us (c # cs) = (if cs = [] then (if c = CHR ''_'' then [] else [c]) else c # drop_last_us cs)"
  by (simp add: drop_last_us_def)

lemma drop_last_us_Nil: "drop_last_us [] = []"
  by (simp add: drop_last_us_def)

lemma bu_scan_pos:
  "0 < i \<Longrightarrow> concat (map (render (\<lambda>_. [])) (gscan boundary_underscore 0 i s)) = drop_last_us s"
proof (induction s arbitrary: i)
  case Nil
  show ?case using gscan_end[OF bu_match0] by (simp add: drop_last_us_def del: gscan.simps)
next
  case (Cons c cs)
  show ?case
  proof (cases "c = CHR ''_'' \<and> cs = []")
    case True
    then have m: "match_at boundary_underscore i (c # cs) = Some \<lparr>index = i, matched = [c], captures = []\<rparr>"
      by (simp add: bu_match)
    from gscan_hit[OF m] True gscan_end[OF bu_match0, of "Suc i"] show ?thesis
      by (simp add: render_simps drop_last_us_Cons del: gscan.simps)
  next
    case False
    with Cons.prems have "match_at boundary_underscore i (c # cs) = None" by (simp add: bu_match)
    from gscan_miss[OF this] Cons.IH[of "Suc i"] False gscan_end[OF bu_match0, of "Suc i"] show ?thesis
      by (auto simp add: render_simps drop_last_us_Cons simp del: gscan.simps)
  qed
qed

lemma bu_scan:
  "replace_g boundary_underscore (\<lambda>_. []) s = drop_last_us (drop_first_us s)"
proof (cases s)
  case Nil
  then show ?thesis using gscan_end[OF bu_match0, of 0]
    by (simp add: replace_g_render drop_last_us_def drop_first_us_def del: gscan.simps)
next
  case (Cons c cs)
  show ?thesis
  proof (cases "c = CHR ''_''")
    case True
    then have m: "match_at boundary_underscore 0 (c # cs) = Some \<lparr>index = 0, matched = [c], captures = []\<rparr>"
      by (simp add: bu_match)
    from gscan_hit[OF m] bu_scan_pos[of "Suc 0" cs] True Cons show ?thesis
      by (simp add: replace_g_render render_simps drop_first_us_def del: gscan.simps)
  next
    case False
    then have "match_at boundary_underscore 0 (c # cs) = None" by (simp add: bu_match)
    from gscan_miss[OF this] bu_scan_pos[of "Suc 0" cs] False Cons show ?thesis
      by (simp add: replace_g_render render_simps drop_first_us_def drop_last_us_Cons drop_last_us_Nil del: gscan.simps)
  qed
qed

lemma nd_Nil: "no_double []"
  by (simp add: no_double_def)

lemma nd_Cons:
  "no_double (c # t) \<longleftrightarrow> no_double t \<and> \<not> (c = CHR ''_'' \<and> (\<exists>v. t = CHR ''_'' # v))"
proof
  assume a: "no_double (c # t)"
  have "no_double t" unfolding no_double_def
  proof (intro allI notI)
    fix u v assume "t = u @ ''__'' @ v"
    then have "c # t = (c # u) @ ''__'' @ v" by simp
    with a show False unfolding no_double_def by blast
  qed
  moreover have "\<not> (c = CHR ''_'' \<and> (\<exists>v. t = CHR ''_'' # v))"
  proof
    assume "c = CHR ''_'' \<and> (\<exists>v. t = CHR ''_'' # v)"
    then obtain v where "c # t = [] @ ''__'' @ v" by auto
    with a show False unfolding no_double_def by blast
  qed
  ultimately show "no_double t \<and> \<not> (c = CHR ''_'' \<and> (\<exists>v. t = CHR ''_'' # v))" by blast
next
  assume a: "no_double t \<and> \<not> (c = CHR ''_'' \<and> (\<exists>v. t = CHR ''_'' # v))"
  show "no_double (c # t)" unfolding no_double_def
  proof (intro allI notI)
    fix u v assume e: "c # t = u @ ''__'' @ v"
    show False
    proof (cases u)
      case Nil
      with e have "c = CHR ''_''" "t = CHR ''_'' # v" by auto
      with a show False by blast
    next
      case (Cons x u')
      with e have "t = u' @ ''__'' @ v" by auto
      with a show False unfolding no_double_def by blast
    qed
  qed
qed

lemma nd_rev: "no_double (rev s) = no_double s"
proof -
  have "no_double s \<Longrightarrow> no_double (rev s)" for s
    unfolding no_double_def
  proof (intro allI notI)
    fix u v assume a: "\<forall>u v. s \<noteq> u @ ''__'' @ v" and e: "rev s = u @ ''__'' @ v"
    from e have "rev (rev s) = rev (u @ ''__'' @ v)" by simp
    then have "s = rev v @ ''__'' @ rev u" by simp
    with a show False by blast
  qed
  from this[of s] this[of "rev s"] show ?thesis by auto
qed

lemma nd_ltrim: "no_double s \<Longrightarrow> dropWhile us s = drop_first_us s"
proof (cases s)
  case Nil
  then show ?thesis by (simp add: drop_first_us_def)
next
  case (Cons c cs)
  assume nd: "no_double s"
  show ?thesis
  proof (cases "c = CHR ''_''")
    case True
    with nd Cons have "\<not> (\<exists>v. cs = CHR ''_'' # v)" by (simp add: nd_Cons)
    then have "dropWhile us cs = cs" by (cases cs) (auto simp: us_def)
    with True Cons show ?thesis by (simp add: drop_first_us_def us_def)
  next
    case False
    with Cons show ?thesis by (simp add: drop_first_us_def us_def)
  qed
qed

lemma nd_drop_first: "no_double s \<Longrightarrow> no_double (drop_first_us s)"
  by (cases s) (auto simp: drop_first_us_def nd_Cons)

lemma rev_drop_first_rev: "rev (drop_first_us (rev s)) = drop_last_us s"
  by (cases s rule: rev_cases) (simp_all add: drop_first_us_def drop_last_us_def)

lemma nd_rtrim: "no_double s \<Longrightarrow> rev (dropWhile us (rev s)) = drop_last_us s"
proof -
  assume "no_double s"
  then have "no_double (rev s)" by (simp add: nd_rev)
  then have "dropWhile us (rev s) = drop_first_us (rev s)" by (rule nd_ltrim)
  then show ?thesis by (simp add: rev_drop_first_rev)
qed

lemma us_fun: "(\<lambda>c. c = CHR ''_'') = us"
  by (simp add: us_def fun_eq_iff)

lemma nd_trim: "no_double s \<Longrightarrow> trim_separators s = drop_last_us (drop_first_us s)"
  unfolding trim_separators_def us_fun
  using nd_ltrim[of s] nd_rtrim[of "drop_first_us s"] nd_drop_first[of s] by simp

lemma nd_collapse:
  "no_double (collapse_runs b s) \<and> (b \<longrightarrow> \<not> (\<exists>v. collapse_runs b s = CHR ''_'' # v))"
proof (induction s arbitrary: b)
  case Nil
  show ?case by (simp add: nd_Nil)
next
  case (Cons c cs)
  show ?case
  proof (cases "is_alnum c")
    case True
    then have "c \<noteq> CHR ''_''" by (rule alnum_not_us)
    with True Cons[of False] show ?thesis by (simp add: nd_Cons)
  next
    case False
    with Cons[of True] show ?thesis by (simp add: nd_Cons)
  qed
qed

lemma ssmEnvVarName_spec: "ssmEnvVarName key = spec_store_name key"
proof -
  have "replace_g underscores2 (\<lambda>_. ''_'') (replace_g non_alnum (\<lambda>_. ''_'') key) = collapse_runs False key"
    by (simp add: replace_g_render na_scan u2_scan squeeze_collapse)
  moreover have "no_double (collapse_runs False key)" using nd_collapse by blast
  ultimately show ?thesis
    by (simp add: ssmEnvVarName_def spec_store_name_def bu_scan nd_trim)
qed

lemma map_of_assign:
  "k \<noteq> ''__proto__'' \<Longrightarrow> map_of (js_assign k v obj) = (map_of obj)(k \<mapsto> v)"
  by (simp add: map_of_js_assign)

lemma fold_assign_map_of:
  assumes f: "\<And>k. f k \<noteq> ''__proto__''"
  shows "map_of (foldl (\<lambda>acc (k, v). js_assign (f k) v acc) acc0 xs) =
     map_of acc0 ++ map_of (rev (map (\<lambda>(k, v). (f k, v)) xs))"
proof (induction xs arbitrary: acc0)
  case Nil
  show ?case by simp
next
  case (Cons x xs)
  obtain k v where x: "x = (k, v)" by (cases x)
  have "foldl (\<lambda>acc (k, v). js_assign (f k) v acc) acc0 (x # xs) =
        foldl (\<lambda>acc (k, v). js_assign (f k) v acc) (js_assign (f k) v acc0) xs"
    by (simp add: x)
  then have "map_of (foldl (\<lambda>acc (k, v). js_assign (f k) v acc) acc0 (x # xs)) =
        (map_of acc0)(f k \<mapsto> v) ++ map_of (rev (map (\<lambda>(k, v). (f k, v)) xs))"
    by (simp only: Cons map_of_assign[OF f])
  also have "\<dots> = map_of acc0 ++ map_of (rev (map (\<lambda>(k, v). (f k, v)) (x # xs)))"
    by (rule ext) (simp add: x map_add_def split: option.splits)
  finally show ?case .
qed

lemma fold_assign_filter_map_of:
  assumes f: "\<And>k. f k \<noteq> ''__proto__''"
  shows "map_of (foldl (\<lambda>acc (k, v). if f k \<noteq> [] then js_assign (f k) v acc else acc) acc0 xs) =
     map_of acc0 ++ map_of (rev (filter (\<lambda>(n, v). n \<noteq> []) (map (\<lambda>(k, v). (f k, v)) xs)))"
proof (induction xs arbitrary: acc0)
  case Nil
  show ?case by simp
next
  case (Cons x xs)
  obtain k v where x: "x = (k, v)" by (cases x)
  show ?case
  proof (cases "f k = []")
    case True
    then show ?thesis by (simp add: x Cons)
  next
    case False
    have "foldl (\<lambda>acc (k, v). if f k \<noteq> [] then js_assign (f k) v acc else acc) acc0 (x # xs) =
        foldl (\<lambda>acc (k, v). if f k \<noteq> [] then js_assign (f k) v acc else acc) (js_assign (f k) v acc0) xs"
      by (simp add: x False)
    then have "map_of (foldl (\<lambda>acc (k, v). if f k \<noteq> [] then js_assign (f k) v acc else acc) acc0 (x # xs)) =
        (map_of acc0)(f k \<mapsto> v) ++ map_of (rev (filter (\<lambda>(n, v). n \<noteq> []) (map (\<lambda>(k, v). (f k, v)) xs)))"
      by (simp only: Cons map_of_assign[OF f])
    also have "\<dots> = map_of acc0 ++ map_of (rev (filter (\<lambda>(n, v). n \<noteq> []) (map (\<lambda>(k, v). (f k, v)) (x # xs))))"
      by (rule ext) (simp add: x False map_add_def split: option.splits)
    finally show ?thesis .
  qed
qed

lemma fold_define_map_of:
  "map_of (foldl (\<lambda>acc (k, v). define_property k v acc) acc0 xs) = map_of acc0 ++ map_of (rev xs)"
proof (induction xs arbitrary: acc0)
  case Nil
  show ?case by simp
next
  case (Cons x xs)
  obtain k v where x: "x = (k, v)" by (cases x)
  have "foldl (\<lambda>acc (k, v). define_property k v acc) acc0 (x # xs) =
        foldl (\<lambda>acc (k, v). define_property k v acc) (define_property k v acc0) xs"
    by (simp add: x)
  then have "map_of (foldl (\<lambda>acc (k, v). define_property k v acc) acc0 (x # xs)) =
        (map_of acc0)(k \<mapsto> v) ++ map_of (rev xs)"
    by (simp only: Cons map_of_define_property)
  also have "\<dots> = map_of acc0 ++ map_of (rev (x # xs))"
    by (rule ext) (simp add: x map_add_def split: option.splits)
  finally show ?case .
qed

lemma spread_map_of: "map_of (spread a b) = map_of (rev a) ++ map_of (rev b)"
  by (simp add: spread_def fold_define_map_of)

lemma map_add_case: "(m1 ++ m2) n = (case m2 n of Some v \<Rightarrow> Some v | None \<Rightarrow> m1 n)"
  by (simp add: map_add_def split: option.splits)

lemma distinct_fold_assign:
  "distinct (map fst acc0) \<Longrightarrow>
   distinct (map fst (foldl (\<lambda>acc (k, v). js_assign (f k) v acc) acc0 xs))"
proof (induction xs arbitrary: acc0)
  case Nil
  then show ?case by simp
next
  case (Cons x xs)
  obtain k v where x: "x = (k, v)" by (cases x)
  from Cons.prems have "distinct (map fst (js_assign (f k) v acc0))" by (rule distinct_js_assign)
  with Cons show ?case by (simp add: x)
qed

lemma distinct_fold_assign_filter:
  "distinct (map fst acc0) \<Longrightarrow>
   distinct (map fst (foldl (\<lambda>acc (k, v). if f k \<noteq> [] then js_assign (f k) v acc else acc) acc0 xs))"
proof (induction xs arbitrary: acc0)
  case Nil
  then show ?case by simp
next
  case (Cons x xs)
  obtain k v where x: "x = (k, v)" by (cases x)
  from Cons.prems have "distinct (map fst (js_assign (f k) v acc0))" by (rule distinct_js_assign)
  with Cons show ?case by (simp add: x)
qed

lemma map_of_rev_distinct: "distinct (map fst al) \<Longrightarrow> map_of (rev al) = map_of al"
proof (rule ext)
  fix k assume d: "distinct (map fst al)"
  then have d': "distinct (map fst (rev al))" by (simp add: rev_map[symmetric])
  show "map_of (rev al) k = map_of al k"
  proof (cases "map_of al k")
    case None
    then have "k \<notin> fst ` set al" by (simp add: map_of_eq_None_iff)
    then have "k \<notin> fst ` set (rev al)" by simp
    then have "map_of (rev al) k = None" by (simp add: map_of_eq_None_iff)
    with None show ?thesis by simp
  next
    case (Some v)
    then have "(k, v) \<in> set al" by (rule map_of_SomeD)
    then have "(k, v) \<in> set (rev al)" by simp
    with d' have "map_of (rev al) k = Some v" by (simp add: map_of_eq_Some_iff)
    with Some show ?thesis by simp
  qed
qed

lemma outputEnvVarName_not_proto: "outputEnvVarName key \<noteq> ''__proto__''"
  unfolding outputEnvVarName_def by (rule toUpperCase_not_proto)

lemma ssmEnvVarName_not_proto: "ssmEnvVarName key \<noteq> ''__proto__''"
  unfolding ssmEnvVarName_def by (rule toUpperCase_not_proto)

text \<open>
  C9 (amended). The derived environment variables of the requirements are, as a mapping:
  for a name that is the name of a configuration-store key (separator for every
  non-alphanumeric run, boundary separators trimmed, upper case) and is not empty, the
  value of that key; for any other name, the value of the output key with that name
  (separator at every lowercase-then-uppercase boundary, upper case). So the store wins
  a collision, and a store key whose name is empty contributes no variable.
\<close>

theorem environmentVariables_derived:
  "map_of (req_environmentVariables (extractRequirements w cc e stack pc)) =
     derived_environmentVariables (outputs (extractRequirements w cc e stack pc))
       (ssmParameters (extractRequirements w cc e stack pc))"
proof (rule ext)
  fix n
  let ?outs = "extractOutputs stack" and ?store = "extractSSMParameters w cc e stack"
  have d: "distinct (map fst (generateEnvVarsFromSSM ?store))"
    unfolding generateEnvVarsFromSSM_def by (rule distinct_fold_assign_filter) simp
  have d': "distinct (map fst (generateEnvVarsFromOutputs ?outs))"
    unfolding generateEnvVarsFromOutputs_def by (rule distinct_fold_assign) simp
  have a: "map_of (generateEnvVarsFromOutputs ?outs) =
      map_of (rev (map (\<lambda>(k, v). (spec_output_name k, v)) ?outs))"
    using fold_assign_map_of[of outputEnvVarName "[]" ?outs, OF outputEnvVarName_not_proto]
    by (simp add: generateEnvVarsFromOutputs_def outputEnvVarName_spec)
  have b: "map_of (generateEnvVarsFromSSM ?store) =
      map_of (rev (filter (\<lambda>(n, v). n \<noteq> []) (map (\<lambda>(k, v). (spec_store_name k, v)) ?store)))"
    using fold_assign_filter_map_of[of ssmEnvVarName "[]" ?store, OF ssmEnvVarName_not_proto]
    by (simp add: generateEnvVarsFromSSM_def ssmEnvVarName_spec)
  have "map_of (spread (generateEnvVarsFromOutputs ?outs) (generateEnvVarsFromSSM ?store)) n =
      (case map_of (generateEnvVarsFromSSM ?store) n of Some v \<Rightarrow> Some v
       | None \<Rightarrow> map_of (generateEnvVarsFromOutputs ?outs) n)"
    by (simp add: spread_map_of map_of_rev_distinct[OF d] map_of_rev_distinct[OF d'] map_add_case)
  then show "map_of (req_environmentVariables (extractRequirements w cc e stack pc)) n =
     derived_environmentVariables (outputs (extractRequirements w cc e stack pc))
       (ssmParameters (extractRequirements w cc e stack pc)) n"
    by (simp add: extractRequirements_def Let_def derived_environmentVariables_def a b split: option.splits)
qed

lemma dash_store: "extractSSMParameters dash_aws dash_client Map.empty dash_stack = [(''-'', ''x'')]"
  by code_simp

lemma dash_outputs: "extractOutputs dash_stack = []"
  by (simp add: extractOutputs_def dash_stack_def)

text \<open>
  C9 as stated fails: in a store that holds the key \<open>-\<close>, whose name is empty, the
  claimed mapping has a variable with the empty name and the derived one has not.
\<close>

theorem environmentVariables_drop_empty_name:
  "map_of (req_environmentVariables
             (extractRequirements dash_aws dash_client Map.empty dash_stack example_profile)) [] = None \<and>
   claimed_environmentVariables
     (outputs (extractRequirements dash_aws dash_client Map.empty dash_stack example_profile))
     (ssmParameters (extractRequirements dash_aws dash_client Map.empty dash_stack example_profile)) [] =
     Some ''x''"
proof -
  have n: "ssmEnvVarName ''-'' = []" by code_simp
  then have s: "spec_store_name ''-'' = []" by (simp add: ssmEnvVarName_spec)
  show ?thesis
    by (simp add: extractRequirements_def Let_def dash_store dash_outputs claimed_environmentVariables_def s n
          generateEnvVarsFromSSM_def generateEnvVarsFromOutputs_def spread_def)
qed

section \<open>Extraction from parameter paths\<close>







lemma placeholder_needs_dollar_Nil: "ms (Seq placeholder r) (i, [], c) = []"
  unfolding placeholder_def chr_def lit.simps
  by (simp only: seq_assoc seq_sym_Nil)






















section \<open>Scanning a reference\<close>







lemma placeholder_not_at_end: "ms placeholder (i, [], c) = []"
  using placeholder_needs_dollar_Nil[of Eps i c] by (simp only: seq_Eps_right)




lemma atom_end: "ms (Alt (none_of ''$}'') placeholder) (i, [], c) = []"
  by (simp add: none_of_def placeholder_not_at_end del: ms.simps(3) ms.simps(5))
















































end
